theory Spec2Isabelle
  imports Main "HOL-Library.AList"
begin

section \<open>Python string primitives used by \<^verbatim>\<open>server.py\<close>\<close>

text \<open>
  A Python \<^verbatim>\<open>str\<close> is modelled as a \<^typ>\<open>string\<close>; every \<^typ>\<open>char\<close> stands for the
  code point of the same number, so the model covers the texts whose code points lie in
  U+0000..U+00FF. The embedding follows the POSIX branch of the program
  (\<^verbatim>\<open>platform.system() != 'Windows'\<close>, \<^verbatim>\<open>os.path\<close> is \<^verbatim>\<open>posixpath\<close>).
\<close>

text \<open>The characters \<^verbatim>\<open>str.strip()\<close> removes: those with \<^verbatim>\<open>str.isspace()\<close>.\<close>

definition isspace :: "char \<Rightarrow> bool" where
  "isspace c \<longleftrightarrow> of_char c \<in> {9, 10, 11, 12, 13, 28, 29, 30, 31, 32, 133, 160 :: nat}"

definition strip :: "string \<Rightarrow> string" where
  "strip s = rev (dropWhile isspace (rev (dropWhile isspace s)))"

text \<open>\<^verbatim>\<open>s.split(c)\<close> for a separator of one character: never an empty list.\<close>

fun split :: "char \<Rightarrow> string \<Rightarrow> string list" where
  "split c [] = [[]]"
| "split c (x # xs) =
     (if x = c then [] # split c xs
      else (let r = split c xs in (x # hd r) # tl r))"

text \<open>\<^verbatim>\<open>s.replace(a, b)\<close> for single characters \<^verbatim>\<open>a\<close>, \<^verbatim>\<open>b\<close>.\<close>

definition replace :: "char \<Rightarrow> char \<Rightarrow> string \<Rightarrow> string" where
  "replace a b s = map (\<lambda>c. if c = a then b else c) s"

text \<open>\<^verbatim>\<open>s.rfind(c)\<close>: the highest index of \<^verbatim>\<open>c\<close>, or \<^verbatim>\<open>-1\<close>.\<close>

fun rfind :: "char \<Rightarrow> string \<Rightarrow> int" where
  "rfind c [] = - 1"
| "rfind c (x # xs) =
     (let r = rfind c xs in if 0 \<le> r then r + 1 else if x = c then 0 else - 1)"

text \<open>
  \<^verbatim>\<open>int(s)\<close> in base 10. The text is stripped of the white space \<^verbatim>\<open>int\<close> accepts (the
  separators U+001C..U+001F are not accepted there), then an optional sign, then
  digits, where single underscores may stand between digits. \<open>None\<close> is the
  \<^verbatim>\<open>ValueError\<close> of Python. The interpreter's configurable limit on the number of
  digits is not part of the model.
\<close>

definition int_space :: "char \<Rightarrow> bool" where
  "int_space c \<longleftrightarrow> of_char c \<in> {9, 10, 11, 12, 13, 32, 133, 160 :: nat}"

definition isdigit :: "char \<Rightarrow> bool" where
  "isdigit c \<longleftrightarrow> 48 \<le> (of_char c :: nat) \<and> (of_char c :: nat) \<le> 57"

definition digit_val :: "char \<Rightarrow> nat" where
  "digit_val c = of_char c - 48"

fun int_digits :: "bool \<Rightarrow> nat \<Rightarrow> string \<Rightarrow> nat option" where
  "int_digits prev acc [] = (if prev then Some acc else None)"
| "int_digits prev acc (c # cs) =
     (if isdigit c then int_digits True (acc * 10 + digit_val c) cs
      else if c = CHR ''_'' \<and> prev then int_digits False acc cs
      else None)"

definition py_int :: "string \<Rightarrow> int option" where
  "py_int s =
     (let t = rev (dropWhile int_space (rev (dropWhile int_space s))) in
      case t of
        [] \<Rightarrow> None
      | c # cs \<Rightarrow>
          if c = CHR ''+'' then map_option int (int_digits False 0 cs)
          else if c = CHR ''-'' then map_option (\<lambda>n. - int n) (int_digits False 0 cs)
          else map_option int (int_digits False 0 t))"

text \<open>\<^verbatim>\<open>str(n)\<close> for an integer: decimal digits, a minus sign for negatives.\<close>

definition digit_char :: "nat \<Rightarrow> char" where
  "digit_char d = char_of (48 + d)"

function str_nat :: "nat \<Rightarrow> string" where
  "str_nat n = (if n < 10 then [digit_char n] else str_nat (n div 10) @ [digit_char (n mod 10)])"
  by pat_completeness auto
termination
  by (relation "measure id") auto

declare str_nat.simps [simp del]

definition str :: "int \<Rightarrow> string" where
  "str i = (if i < 0 then CHR ''-'' # str_nat (nat (- i)) else str_nat (nat i))"

section \<open>Timestamp parsing\<close>

text \<open>
  The exceptions the program raises. \<open>ValueError\<close> carries the message text. For the
  \<^verbatim>\<open>ValueError\<close> raised inside \<^verbatim>\<open>int\<close> the message is the library's prefix and the
  token between quotes (the escaping that \<^verbatim>\<open>repr\<close> adds is not modelled).
\<close>

datatype error = ValueError string | Exception string

definition int_literal_error :: "string \<Rightarrow> error" where
  "int_literal_error tok =
     ValueError (''invalid literal for int() with base 10: '' @ [CHR 0x27] @ tok @ [CHR 0x27])"

definition int_of_token :: "string \<Rightarrow> error + int" where
  "int_of_token tok = (case py_int tok of None \<Rightarrow> Inl (int_literal_error tok) | Some v \<Rightarrow> Inr v)"

definition parse_timestamp :: "string \<Rightarrow> error + int" where
  "parse_timestamp timestamp =
     (let parts = split CHR '':'' (strip timestamp) in
      if length parts = 2 then
        (case int_of_token (parts ! 0) of Inl e \<Rightarrow> Inl e | Inr a \<Rightarrow>
         case int_of_token (parts ! 1) of Inl e \<Rightarrow> Inl e | Inr b \<Rightarrow>
         Inr (a * 60 + b))
      else if length parts = 3 then
        (case int_of_token (parts ! 0) of Inl e \<Rightarrow> Inl e | Inr a \<Rightarrow>
         case int_of_token (parts ! 1) of Inl e \<Rightarrow> Inl e | Inr b \<Rightarrow>
         case int_of_token (parts ! 2) of Inl e \<Rightarrow> Inl e | Inr c \<Rightarrow>
         Inr (a * 3600 + b * 60 + c))
      else Inl (ValueError (''Invalid timestamp format: '' @ timestamp)))"

record range_info =
  start :: int
  end' :: int
  start_str :: string
  end_str :: string

text \<open>The body of the loop of \<^verbatim>\<open>parse_timestamp_ranges\<close> for one non-blank, stripped segment.\<close>

definition parse_range :: "string \<Rightarrow> error + range_info" where
  "parse_range range_str =
     (let parts = split CHR ''-'' range_str in
      if length parts \<noteq> 2 then Inl (ValueError (''Invalid range format: '' @ range_str))
      else
        (case parse_timestamp (strip (parts ! 0)) of Inl e \<Rightarrow> Inl e | Inr s \<Rightarrow>
        (case parse_timestamp (strip (parts ! 1)) of Inl e \<Rightarrow> Inl e | Inr e \<Rightarrow>
        (if s \<ge> e then
           Inl (ValueError (''Invalid range: start time must be before end time in '' @ range_str))
         else Inr \<lparr>start = s, end' = e,
                   start_str = strip (parts ! 0), end_str = strip (parts ! 1)\<rparr>))))"

text \<open>The loop: \<open>ranges\<close> is the list built so far, the segments are those still to visit.\<close>

fun parse_ranges_loop :: "range_info list \<Rightarrow> string list \<Rightarrow> error + range_info list" where
  "parse_ranges_loop ranges [] = Inr ranges"
| "parse_ranges_loop ranges (seg # segs) =
     (let range_str = strip seg in
      if range_str = [] then parse_ranges_loop ranges segs
      else case parse_range range_str of
             Inl e \<Rightarrow> Inl e
           | Inr r \<Rightarrow> parse_ranges_loop (ranges @ [r]) segs)"

definition parse_timestamp_ranges :: "string \<Rightarrow> error + range_info list" where
  "parse_timestamp_ranges timestamps_text = parse_ranges_loop [] (split CHR '','' timestamps_text)"

section \<open>File name derivation\<close>

text \<open>\<^verbatim>\<open>posixpath.splitext\<close>: the extension starts at the last dot of the last path
  component, unless only dots precede it there.\<close>

definition splitext :: "string \<Rightarrow> string \<times> string" where
  "splitext p =
     (let sepIndex = rfind CHR ''/'' p; dotIndex = rfind CHR ''.'' p in
      if dotIndex > sepIndex \<and>
         list_ex (\<lambda>j. p ! j \<noteq> CHR ''.'') [nat (sepIndex + 1) ..< nat dotIndex]
      then (take (nat dotIndex) p, drop (nat dotIndex) p)
      else (p, []))"

fun first_delimited :: "char list \<Rightarrow> string \<Rightarrow> string option" where
  "first_delimited [] name = None"
| "first_delimited (d # ds) name =
     (if d \<in> set name then Some (hd (split d name)) else first_delimited ds name)"

definition get_first_word :: "string \<Rightarrow> string" where
  "get_first_word filename =
     (let name_without_ext = fst (splitext filename) in
      if CHR '' '' \<in> set name_without_ext then hd (split CHR '' '' name_without_ext)
      else case first_delimited [CHR ''_'', CHR ''-'', CHR ''.''] name_without_ext of
             Some w \<Rightarrow> w
           | None \<Rightarrow> if name_without_ext \<noteq> [] then name_without_ext else ''clip'')"

text \<open>The f-string that names the clip of the \<open>i\<close>-th range.\<close>

definition output_filename :: "string \<Rightarrow> int \<Rightarrow> range_info \<Rightarrow> string" where
  "output_filename first_word i r =
     first_word @ ''-'' @ str i @ ''-['' @ replace CHR '':'' CHR ''_'' (start_str r)
       @ '' - '' @ replace CHR '':'' CHR ''_'' (end_str r) @ ''].mp4''"

section \<open>The world the request handlers act on\<close>

text \<open>
  The state the handlers read and change: the directories and files of the file system
  (paths compared as written, files with their bytes), the process-wide dictionary
  \<^verbatim>\<open>temp_clips\<close> (an association list in insertion order, changed only with
  \<open>AList.update\<close> and \<open>AList.delete\<close>), the commands handed to \<^verbatim>\<open>subprocess.run\<close> so far,
  and the number of calls of \<^verbatim>\<open>os.urandom\<close> so far.
\<close>

record clip_info =
  path :: string
  filename :: string
  temp_dir :: string

record world =
  dirs :: "string set"
  files :: "string \<rightharpoonup> string"
  temp_clips :: "(string \<times> clip_info) list"
  calls :: "string list list"
  urandom_calls :: nat

text \<open>What a finished child process reports; \<open>written\<close> is what it left at its output path.\<close>

record proc_result =
  returncode :: int
  stderr :: string
  written :: "string option"

text \<open>
  What the program does not decide: \<^verbatim>\<open>os.path.expanduser\<close>, whether \<^verbatim>\<open>os.makedirs\<close>
  raises, \<^verbatim>\<open>werkzeug\<close>'s \<^verbatim>\<open>secure_filename\<close>, the name \<^verbatim>\<open>tempfile.mkdtemp\<close> picks, the
  outcome of the \<open>n\<close>-th call of \<^verbatim>\<open>subprocess.run\<close> (an exception, or a finished
  process) and the text of the \<open>n\<close>-th \<^verbatim>\<open>os.urandom(8).hex()\<close>.
\<close>

record env =
  expanduser :: "string \<Rightarrow> string"
  makedirs_error :: "string \<Rightarrow> error option"
  secure_filename :: "string \<Rightarrow> string"
  mkdtemp :: "world \<Rightarrow> string"
  run :: "nat \<Rightarrow> string list \<Rightarrow> error + proc_result"
  urandom_hex :: "nat \<Rightarrow> string"

text \<open>An entry of \<^verbatim>\<open>clips_info\<close>: the key \<^verbatim>\<open>'id'\<close> is there or not, \<^verbatim>\<open>'filename'\<close> always.\<close>

record clip =
  clip_id :: "string option"
  clip_filename :: string

text \<open>What a handler answers: \<^verbatim>\<open>jsonify({'error': m}), status\<close>; the success object of
  \<^verbatim>\<open>/split\<close> with its clips and, when present, \<^verbatim>\<open>saved_to_path\<close>; \<^verbatim>\<open>send_file\<close> with
  the bytes and the download name; or an exception that leaves the handler.\<close>

datatype response =
    Json_error string nat
  | Json_success "clip list" "string option"
  | Send_file string string
  | Unhandled error

fun message :: "error \<Rightarrow> string" where
  "message (ValueError m) = m"
| "message (Exception m) = m"

definition path_exists :: "world \<Rightarrow> string \<Rightarrow> bool" where
  "path_exists w p \<longleftrightarrow> p \<in> dirs w \<or> files w p \<noteq> None"

definition isdir :: "world \<Rightarrow> string \<Rightarrow> bool" where
  "isdir w p \<longleftrightarrow> p \<in> dirs w"

text \<open>\<^verbatim>\<open>posixpath.join\<close> of two components.\<close>

definition join :: "string \<Rightarrow> string \<Rightarrow> string" where
  "join a b =
     (if b \<noteq> [] \<and> hd b = CHR ''/'' then b
      else if a = [] \<or> last a = CHR ''/'' then a @ b
      else a @ ''/'' @ b)"

text \<open>\<^verbatim>\<open>os.makedirs(p, exist_ok=True)\<close>: the directory and the ancestors named in \<open>p\<close>.\<close>

definition parents :: "string \<Rightarrow> string list" where
  "parents p = map (\<lambda>k. take k p) (filter (\<lambda>k. p ! k = CHR ''/'') [1 ..< length p])"

definition makedirs :: "env \<Rightarrow> string \<Rightarrow> world \<Rightarrow> error + world" where
  "makedirs env p w =
     (case makedirs_error env p of
        Some e \<Rightarrow> Inl e
      | None \<Rightarrow> Inr (w\<lparr>dirs := dirs w \<union> set (p # parents p)\<rparr>))"

text \<open>\<^verbatim>\<open>shutil.rmtree(d, ignore_errors=True)\<close>: \<open>d\<close> and all below it are gone. (A
  deletion that the operating system refuses is passed over in silence by this call;
  the model has no such refusals.)\<close>

definition inside :: "string \<Rightarrow> string \<Rightarrow> bool" where
  "inside d p \<longleftrightarrow> p = d \<or> take (Suc (length d)) p = d @ ''/''"

definition rmtree :: "string \<Rightarrow> world \<Rightarrow> world" where
  "rmtree d w = w\<lparr>dirs := Set.filter (\<lambda>p. \<not> inside d p) (dirs w),
                  files := (\<lambda>p. if inside d p then None else files w p)\<rparr>"

text \<open>\<^verbatim>\<open>subprocess.run(cmd, capture_output=True, text=True)\<close>, the output path being the
  last argument of the command.\<close>

definition subprocess_run :: "env \<Rightarrow> string list \<Rightarrow> world \<Rightarrow> (error + proc_result) \<times> world" where
  "subprocess_run env cmd w =
     (let w1 = w\<lparr>calls := calls w @ [cmd]\<rparr> in
      case run env (length (calls w)) cmd of
        Inl e \<Rightarrow> (Inl e, w1)
      | Inr result \<Rightarrow>
          (Inr result,
           case written result of
             None \<Rightarrow> w1
           | Some bytes \<Rightarrow> w1\<lparr>files := (files w1)(last cmd \<mapsto> bytes)\<rparr>))"

section \<open>The upload gate\<close>

definition ALLOWED_EXTENSIONS :: "string list" where
  "ALLOWED_EXTENSIONS =
     [''mp4'', ''avi'', ''mov'', ''mkv'', ''webm'', ''flv'', ''wmv'', ''mpg'', ''mpeg'', ''m4v'']"

text \<open>\<^verbatim>\<open>str.lower()\<close> on the code points below U+0100.\<close>

definition lower_char :: "char \<Rightarrow> char" where
  "lower_char c =
     (let n = (of_char c :: nat) in
      if (65 \<le> n \<and> n \<le> 90) \<or> (192 \<le> n \<and> n \<le> 222 \<and> n \<noteq> 215) then char_of (n + 32) else c)"

definition allowed_file :: "string \<Rightarrow> bool" where
  "allowed_file fname \<longleftrightarrow>
     CHR ''.'' \<in> set fname \<and>
     map lower_char (drop (nat (rfind CHR ''.'' fname + 1)) fname) \<in> set ALLOWED_EXTENSIONS"

fun join_with :: "string \<Rightarrow> string list \<Rightarrow> string" where
  "join_with sep [] = []"
| "join_with sep [x] = x"
| "join_with sep (x # y # ys) = x @ sep @ join_with sep (y # ys)"

section \<open>The handler of \<^verbatim>\<open>/split\<close>\<close>

record request =
  video :: "(string \<times> string) option"
  timestamps :: "string option"
  outputPath :: "string option"

text \<open>The locals of \<^verbatim>\<open>split_video\<close> that stay fixed while the ranges are cut;
  \<open>scratch_dir\<close> is the local \<^verbatim>\<open>temp_dir\<close>.\<close>

record job =
  ffmpeg_cmd :: string
  input_path :: string
  save_to_path :: bool
  output_path :: string
  scratch_dir :: string
  first_word :: string

definition get_ffmpeg_command :: string where
  "get_ffmpeg_command = ''ffmpeg''"

text \<open>Lines 623 to 638: the optional output path is checked, and created when missing.\<close>

definition validate_output_path :: "env \<Rightarrow> request \<Rightarrow> world \<Rightarrow> response + (bool \<times> string \<times> world)" where
  "validate_output_path env req w =
     (let p0 = strip (case outputPath req of None \<Rightarrow> [] | Some p \<Rightarrow> p) in
      if p0 \<noteq> [] then
        (let p = expanduser env p0 in
         if \<not> path_exists w p then
           (case makedirs env p w of
              Inl e \<Rightarrow> Inl (Json_error (''Cannot create output directory: '' @ message e) 400)
            | Inr w1 \<Rightarrow> Inr (True, p, w1))
         else if \<not> isdir w p then Inl (Json_error ''Output path must be a directory'' 400)
         else Inr (True, p, w))
      else Inr (False, p0, w))"

definition copy_cmd :: "job \<Rightarrow> range_info \<Rightarrow> string \<Rightarrow> string list" where
  "copy_cmd j r clip_output_path =
     [ffmpeg_cmd j, ''-i'', input_path j, ''-ss'', str (start r), ''-t'', str (end' r - start r),
      ''-c'', ''copy'', ''-avoid_negative_ts'', ''make_zero'', ''-y'', clip_output_path]"

definition reencode_cmd :: "job \<Rightarrow> range_info \<Rightarrow> string \<Rightarrow> string list" where
  "reencode_cmd j r clip_output_path =
     [ffmpeg_cmd j, ''-i'', input_path j, ''-ss'', str (start r), ''-t'', str (end' r - start r),
      ''-c:v'', ''libx264'', ''-c:a'', ''aac'', ''-y'', clip_output_path]"

definition clip_path :: "job \<Rightarrow> int \<Rightarrow> range_info \<Rightarrow> string" where
  "clip_path j i r =
     join (if save_to_path j then output_path j else scratch_dir j) (output_filename (first_word j) i r)"

text \<open>Lines 711 to 727: the clip is recorded, in \<^verbatim>\<open>temp_clips\<close> too when it is to be
  downloaded.\<close>

definition store_clip :: "env \<Rightarrow> job \<Rightarrow> int \<Rightarrow> range_info \<Rightarrow> clip list \<Rightarrow> world \<Rightarrow> clip list \<times> world" where
  "store_clip env j i r clips_info w =
     (if \<not> save_to_path j then
        (let cid = ''clip_'' @ str i @ ''_'' @ urandom_hex env (urandom_calls w) in
         (clips_info @ [\<lparr>clip_id = Some cid, clip_filename = output_filename (first_word j) i r\<rparr>],
          w\<lparr>urandom_calls := Suc (urandom_calls w),
            temp_clips := AList.update cid
              \<lparr>path = clip_path j i r, filename = output_filename (first_word j) i r,
               temp_dir = scratch_dir j\<rparr> (temp_clips w)\<rparr>))
      else
        (clips_info @ [\<lparr>clip_id = None, clip_filename = output_filename (first_word j) i r\<rparr>], w))"

text \<open>Lines 662 to 727: the body of the loop for the \<open>i\<close>-th range. \<open>Inl\<close> is an exception
  leaving the loop, with the world as it is then.\<close>

definition cut_clip :: "env \<Rightarrow> job \<Rightarrow> int \<Rightarrow> range_info \<Rightarrow> clip list \<Rightarrow> world
    \<Rightarrow> (error \<times> world) + (clip list \<times> world)" where
  "cut_clip env j i r clips_info w =
     (case subprocess_run env (copy_cmd j r (clip_path j i r)) w of
        (Inl e, w1) \<Rightarrow> Inl (e, w1)
      | (Inr result, w1) \<Rightarrow>
          if returncode result \<noteq> 0 then
            (case subprocess_run env (reencode_cmd j r (clip_path j i r)) w1 of
               (Inl e, w2) \<Rightarrow> Inl (e, w2)
             | (Inr result2, w2) \<Rightarrow>
                 if returncode result2 \<noteq> 0
                 then Inl (Exception (''FFmpeg failed: '' @ stderr result2), w2)
                 else Inr (store_clip env j i r clips_info w2))
          else Inr (store_clip env j i r clips_info w1))"

fun clip_loop :: "env \<Rightarrow> job \<Rightarrow> int \<Rightarrow> range_info list \<Rightarrow> clip list \<Rightarrow> world
    \<Rightarrow> (error \<times> world) + (clip list \<times> world)" where
  "clip_loop env j i [] clips_info w = Inr (clips_info, w)"
| "clip_loop env j i (r # rs) clips_info w =
     (case cut_clip env j i r clips_info w of
        Inl ew \<Rightarrow> Inl ew
      | Inr (clips_info1, w1) \<Rightarrow> clip_loop env j (i + 1) rs clips_info1 w1)"

text \<open>Lines 602 to 659: everything before the loop. \<open>Inl\<close> is an early answer.
  \<^verbatim>\<open>tempfile.mkdtemp\<close> and \<^verbatim>\<open>file.save\<close> are taken to succeed. The message for a
  file type that is not allowed lists the extensions in the order of the source text
  (Python joins a set, in an order of its own).\<close>

definition prepare :: "env \<Rightarrow> request \<Rightarrow> world \<Rightarrow> (response \<times> world) + (job \<times> range_info list \<times> world)" where
  "prepare env req w =
     (case video req of
        None \<Rightarrow> Inl (Json_error ''No video file provided'' 400, w)
      | Some (fname, bytes) \<Rightarrow>
          if fname = [] then Inl (Json_error ''No file selected'' 400, w)
          else if \<not> allowed_file fname then
            Inl (Json_error (''Invalid file type. Allowed types: '' @ join_with '', '' ALLOWED_EXTENSIONS) 400, w)
          else if (case timestamps req of None \<Rightarrow> [] | Some t \<Rightarrow> t) = [] then
            Inl (Json_error ''No timestamps provided'' 400, w)
          else
            (case validate_output_path env req w of
               Inl resp \<Rightarrow> Inl (resp, w)
             | Inr (save, out, w1) \<Rightarrow>
                 (case parse_timestamp_ranges (case timestamps req of None \<Rightarrow> [] | Some t \<Rightarrow> t) of
                    Inl (ValueError m) \<Rightarrow> Inl (Json_error m 400, w1)
                  | Inl (Exception m) \<Rightarrow> Inl (Json_error m 500, w1)
                  | Inr ranges \<Rightarrow>
                      (let safe0 = secure_filename env fname;
                           safe_filename = (if safe0 = [] \<or> safe0 = ''.mp4'' then ''temp_video.mp4'' else safe0);
                           tmp = mkdtemp env w1;
                           inp = join tmp safe_filename;
                           w2 = w1\<lparr>dirs := insert tmp (dirs w1), files := (files w1)(inp \<mapsto> bytes)\<rparr>
                       in Inr (\<lparr>ffmpeg_cmd = get_ffmpeg_command, input_path = inp, save_to_path = save,
                                 output_path = out, scratch_dir = tmp,
                                 first_word = get_first_word fname\<rparr>, ranges, w2)))))"

definition split_video :: "env \<Rightarrow> request \<Rightarrow> world \<Rightarrow> response \<times> world" where
  "split_video env req w =
     (case prepare env req w of
        Inl rw \<Rightarrow> rw
      | Inr (j, ranges, w2) \<Rightarrow>
          (case clip_loop env j 1 ranges [] w2 of
             Inl (e, w3) \<Rightarrow> (Json_error (message e) 500, rmtree (scratch_dir j) w3)
           | Inr (clips_info, w3) \<Rightarrow>
               if save_to_path j
               then (Json_success clips_info (Some (output_path j)), rmtree (scratch_dir j) w3)
               else (Json_success clips_info None, w3)))"

section \<open>Download and the sweep at exit\<close>

definition send_file :: "world \<Rightarrow> string \<Rightarrow> string \<Rightarrow> response" where
  "send_file w p download_name =
     (case files w p of
        None \<Rightarrow> Unhandled (Exception p)
      | Some bytes \<Rightarrow> Send_file bytes download_name)"

definition download_clip :: "string \<Rightarrow> world \<Rightarrow> response \<times> world" where
  "download_clip cid w =
     (case map_of (temp_clips w) cid of
        None \<Rightarrow> (Json_error ''Clip not found'' 404, w)
      | Some info \<Rightarrow> (send_file w (path info) (filename info), w))"

fun cleanup_loop :: "(string \<times> clip_info) list \<Rightarrow> world \<Rightarrow> world" where
  "cleanup_loop [] w = w"
| "cleanup_loop ((cid, info) # items) w =
     (let w1 = (if path_exists w (temp_dir info) then rmtree (temp_dir info) w else w) in
      if cid \<in> fst ` set (temp_clips w1)
      then cleanup_loop items (w1\<lparr>temp_clips := AList.delete cid (temp_clips w1)\<rparr>)
      else cleanup_loop items w1)"

definition cleanup_temp_files :: "world \<Rightarrow> world" where
  "cleanup_temp_files w = cleanup_loop (temp_clips w) w"

section \<open>Vocabulary of the specification\<close>

text \<open>
  A token that is a non-negative integer in the plain sense, a non-empty run of the
  digits 0 to 9, and the number it denotes. These two follow the words of the
  specification and are compared below with what \<^verbatim>\<open>int\<close> computes.
\<close>

definition is_number :: "string \<Rightarrow> bool" where
  "is_number s \<longleftrightarrow> s \<noteq> [] \<and> list_all isdigit s"

definition number_value :: "string \<Rightarrow> nat" where
  "number_value s = foldl (\<lambda>a c. a * 10 + digit_val c) 0 s"

text \<open>The world a handler leaves behind, whether it raised or returned.\<close>

definition outcome_world :: "(error \<times> world) + ('a \<times> world) \<Rightarrow> world" where
  "outcome_world x = (case x of Inl (e, w) \<Rightarrow> w | Inr (a, w) \<Rightarrow> w)"

text \<open>The names \<^verbatim>\<open>enumerate(ranges, 1)\<close> gives the clips, starting at number \<open>i\<close>.\<close>

fun expected_names :: "string \<Rightarrow> int \<Rightarrow> range_info list \<Rightarrow> string list" where
  "expected_names fw i [] = []"
| "expected_names fw i (r # rs) = output_filename fw i r # expected_names fw (i + 1) rs"

text \<open>A clip descriptor whose id is a key of \<^verbatim>\<open>temp_clips\<close>, with a record that names
  the directory \<open>td\<close> as its \<^verbatim>\<open>temp_dir\<close>.\<close>

definition registered :: "string \<Rightarrow> world \<Rightarrow> clip \<Rightarrow> bool" where
  "registered td w c \<longleftrightarrow>
     (\<exists>cid info. clip_id c = Some cid \<and> map_of (temp_clips w) cid = Some info \<and> temp_dir info = td)"

section \<open>Concrete runs\<close>

text \<open>
  An environment in which the first child process succeeds and every later one exits
  with status 1 and the diagnostic \<open>boom\<close>, a world with nothing but \<open>/tmp\<close>, a world
  with one registered clip, and four requests for the same upload \<open>a.mp4\<close>.
\<close>

definition demo_env :: env where
  "demo_env = \<lparr>expanduser = (\<lambda>p. p), makedirs_error = (\<lambda>p. None), secure_filename = (\<lambda>f. f),
     mkdtemp = (\<lambda>w. ''/tmp/job''),
     run = (\<lambda>n cmd. if n = 0 then Inr \<lparr>returncode = 0, stderr = [], written = Some ''frames''\<rparr>
                     else Inr \<lparr>returncode = 1, stderr = ''boom'', written = None\<rparr>),
     urandom_hex = (\<lambda>n. ''00112233aabbccdd'')\<rparr>"

definition demo_world :: world where
  "demo_world = \<lparr>dirs = {''/tmp''}, files = Map.empty, temp_clips = [], calls = [], urandom_calls = 0\<rparr>"

definition bad_request :: request where
  "bad_request = \<lparr>video = Some (''a.mp4'', ''data''), timestamps = Some ''bad'', outputPath = Some ''/out''\<rparr>"

definition saved_request :: request where
  "saved_request = \<lparr>video = Some (''a.mp4'', ''data''), timestamps = Some ''0:01-0:02'',
     outputPath = Some ''/out''\<rparr>"

definition download_request :: request where
  "download_request = \<lparr>video = Some (''a.mp4'', ''data''), timestamps = Some ''0:01-0:02,0:03-0:05'',
     outputPath = None\<rparr>"

definition failing_request :: request where
  "failing_request = \<lparr>video = Some (''a.mp4'', ''data''), timestamps = Some ''0:01-0:02,0:03-0:05'',
     outputPath = Some ''/out''\<rparr>"

definition demo_store :: world where
  "demo_store = \<lparr>dirs = {''/tmp'', ''/tmp/job''},
     files = [''/tmp/job/a-1-[0_01 - 0_02].mp4'' \<mapsto> ''frames''],
     temp_clips = [(''clip_1_00112233aabbccdd'',
                    \<lparr>path = ''/tmp/job/a-1-[0_01 - 0_02].mp4'', filename = ''a-1-[0_01 - 0_02].mp4'',
                     temp_dir = ''/tmp/job''\<rparr>)],
     calls = [], urandom_calls = 1\<rparr>"

definition range1 :: range_info where
  "range1 = \<lparr>start = 1, end' = 2, start_str = ''0:01'', end_str = ''0:02''\<rparr>"

definition range2 :: range_info where
  "range2 = \<lparr>start = 3, end' = 5, start_str = ''0:03'', end_str = ''0:05''\<rparr>"

section \<open>Properties of the string primitives\<close>

lemma split_not_Nil: "split c s \<noteq> []"
  by (induction s) (auto simp: Let_def)

lemma split_notin: "c \<notin> set s \<Longrightarrow> split c s = [s]"
  by (induction s) (auto simp: Let_def)

lemma split_append: "c \<notin> set a \<Longrightarrow> split c (a @ c # b) = a # split c b"
  by (induction a) (auto simp: Let_def)

lemma trim_id:
  assumes "s \<noteq> []" "\<not> P (hd s)" "\<not> P (last s)"
  shows "rev (dropWhile P (rev (dropWhile P s))) = s"
proof -
  have 1: "dropWhile P s = s" using assms by (cases s) auto
  have "rev s \<noteq> []" "hd (rev s) = last s" using assms(1) by (simp_all add: hd_rev)
  then have 2: "dropWhile P (rev s) = rev s"
    using assms(3) by (simp add: dropWhile_eq_self_iff)
  show ?thesis by (simp only: 1 2 rev_rev_ident)
qed

lemma strip_id: "s \<noteq> [] \<Longrightarrow> \<not> isspace (hd s) \<Longrightarrow> \<not> isspace (last s) \<Longrightarrow> strip s = s"
  by (simp add: strip_def trim_id)

lemma in_set_dropWhile: "x \<in> set xs \<Longrightarrow> \<not> P x \<Longrightarrow> x \<in> set (dropWhile P xs)"
  by (induction xs) auto

lemma in_set_trim:
  "x \<in> set xs \<Longrightarrow> \<not> P x \<Longrightarrow> x \<in> set (rev (dropWhile P (rev (dropWhile P xs))))"
  by (simp add: in_set_dropWhile)

lemma isdigit_not_space: "isdigit c \<Longrightarrow> \<not> isspace c \<and> \<not> int_space c"
  by (auto simp: isdigit_def isspace_def int_space_def)

lemma isdigit_not_special:
  "isdigit c \<Longrightarrow> c \<noteq> CHR '':'' \<and> c \<noteq> CHR ''+'' \<and> c \<noteq> CHR ''-'' \<and> c \<noteq> CHR ''_''"
  by (auto simp: isdigit_def)

subsection \<open>\<^verbatim>\<open>int\<close> and \<^verbatim>\<open>str\<close>\<close>

lemma int_digits_digits:
  "list_all isdigit ds \<Longrightarrow> ds \<noteq> [] \<or> prev \<Longrightarrow>
   int_digits prev acc ds = Some (foldl (\<lambda>a c. a * 10 + digit_val c) acc ds)"
  by (induction ds arbitrary: prev acc) auto

lemma int_digits_bad:
  "\<exists>c\<in>set ds. \<not> isdigit c \<and> c \<noteq> CHR ''_'' \<Longrightarrow> int_digits prev acc ds = None"
  by (induction ds arbitrary: prev acc) auto

lemma py_int_number: "is_number s \<Longrightarrow> py_int s = Some (int (number_value s))"
proof -
  assume a: "is_number s"
  then obtain c cs where s: "s = c # cs" by (cases s) (auto simp: is_number_def)
  from a have d: "list_all isdigit s" and ne: "s \<noteq> []" by (auto simp: is_number_def)
  have c: "isdigit c" using d s by simp
  have l: "isdigit (last s)" using d ne by (simp add: list_all_iff)
  have t: "rev (dropWhile int_space (rev (dropWhile int_space s))) = s"
    using c l s isdigit_not_space by (intro trim_id) auto
  show ?thesis
    unfolding py_int_def t Let_def number_value_def
    using isdigit_not_special[OF c] int_digits_digits[OF d, of False 0] ne s by simp
qed

lemma py_int_bad:
  assumes "c \<in> set tok" "\<not> isdigit c" "\<not> int_space c"
    "c \<noteq> CHR ''+''" "c \<noteq> CHR ''-''" "c \<noteq> CHR ''_''"
  shows "py_int tok = None"
proof -
  define t where "t = rev (dropWhile int_space (rev (dropWhile int_space tok)))"
  have ct: "c \<in> set t" unfolding t_def using assms(1,3) by (rule in_set_trim)
  then obtain x xs where t: "t = x # xs" by (cases t) auto
  have bad_t: "int_digits False 0 t = None"
    using ct assms(2,6) by (intro int_digits_bad) blast
  have bad_xs: "x = CHR ''+'' \<or> x = CHR ''-'' \<Longrightarrow> int_digits False 0 xs = None"
    using ct t assms(2,4,5,6) by (intro int_digits_bad) auto
  show ?thesis
    using bad_t bad_xs t unfolding py_int_def t_def[symmetric] Let_def by auto
qed

lemma digit_char_props: "d < 10 \<Longrightarrow> isdigit (digit_char d) \<and> digit_val (digit_char d) = d"
  by (simp add: digit_char_def isdigit_def digit_val_def)

lemma str_nat_number: "is_number (str_nat n) \<and> number_value (str_nat n) = n"
proof (induction n rule: str_nat.induct)
  case (1 n)
  show ?case
  proof (cases "n < 10")
    case True
    then show ?thesis
      by (subst (1 2) str_nat.simps) (simp add: is_number_def number_value_def digit_char_props)
  next
    case False
    with 1 have ih: "is_number (str_nat (n div 10))" "number_value (str_nat (n div 10)) = n div 10"
      by auto
    have d: "isdigit (digit_char (n mod 10))" "digit_val (digit_char (n mod 10)) = n mod 10"
      by (simp_all add: digit_char_props)
    from False ih d show ?thesis
      by (subst (1 2) str_nat.simps) (simp add: is_number_def number_value_def)
  qed
qed

lemma py_int_str: "py_int (str i) = Some i"
proof (cases "i < 0")
  case False
  then show ?thesis using str_nat_number[of "nat i"] by (simp add: str_def py_int_number)
next
  case True
  define ds where "ds = str_nat (nat (- i))"
  have n: "is_number ds" "number_value ds = nat (- i)"
    unfolding ds_def using str_nat_number by auto
  then have ds: "ds \<noteq> []" "list_all isdigit ds" by (auto simp: is_number_def)
  have "\<not> int_space (last ds)" using ds isdigit_not_space by (auto simp: list_all_iff)
  moreover have "\<not> int_space CHR ''-''" by (simp add: int_space_def)
  ultimately have t:
    "rev (dropWhile int_space (rev (dropWhile int_space (CHR ''-'' # ds)))) = CHR ''-'' # ds"
    using ds(1) by (intro trim_id) auto
  have "int_digits False 0 ds = Some (number_value ds)"
    unfolding number_value_def using ds by (intro int_digits_digits) auto
  then have "py_int (CHR ''-'' # ds) = Some (- int (number_value ds))"
    unfolding py_int_def t Let_def by simp
  then show ?thesis
    using True n(2) unfolding str_def ds_def[symmetric] by simp
qed

section \<open>Clock values\<close>

lemma parse_timestamp_two:
  assumes "split CHR '':'' (strip t) = [a, b]" "py_int a = Some x" "py_int b = Some y"
  shows "parse_timestamp t = Inr (x * 60 + y)"
  using assms by (simp add: parse_timestamp_def int_of_token_def)

lemma parse_timestamp_three:
  assumes "split CHR '':'' (strip t) = [a, b, c]" "py_int a = Some x" "py_int b = Some y"
    "py_int c = Some z"
  shows "parse_timestamp t = Inr (x * 3600 + y * 60 + z)"
  using assms by (simp add: parse_timestamp_def int_of_token_def)

lemma is_number_no_colon: "is_number s \<Longrightarrow> CHR '':'' \<notin> set s"
  using isdigit_not_special by (auto simp: is_number_def list_all_iff)

lemma is_number_ends: "is_number s \<Longrightarrow> \<not> isspace (hd s) \<and> \<not> isspace (last s)"
  using isdigit_not_space by (auto simp: is_number_def list_all_iff)

lemma strip_numbers:
  assumes "is_number a" "is_number b"
  shows "strip (a @ x # b) = a @ x # b"
proof -
  have "hd (a @ x # b) = hd a" "last (a @ x # b) = last b"
    using assms by (auto simp: is_number_def)
  then show ?thesis using is_number_ends[OF assms(1)] is_number_ends[OF assms(2)]
    by (intro strip_id) auto
qed

lemma parse_timestamp_bad_token:
  assumes "tok \<in> set (split CHR '':'' (strip t))" "py_int tok = None"
  shows "\<exists>msg. parse_timestamp t = Inl (ValueError msg)"
proof -
  define parts where "parts = split CHR '':'' (strip t)"
  consider (two) a b where "parts = [a, b]" | (three) a b c where "parts = [a, b, c]"
    | (other) "length parts \<noteq> 2" "length parts \<noteq> 3"
    by (cases parts rule: list.exhaust; simp)
       (metis (no_types) length_0_conv length_Suc_conv list.exhaust list.size(3,4)
          numeral_2_eq_2 numeral_3_eq_3)
  then show ?thesis
  proof cases
    case two
    then show ?thesis using assms unfolding parts_def
      by (auto simp: parse_timestamp_def int_of_token_def int_literal_error_def
            split: option.splits)
  next
    case three
    then show ?thesis using assms unfolding parts_def
      by (auto simp: parse_timestamp_def int_of_token_def int_literal_error_def Let_def
            numeral_2_eq_2 split: option.splits)
  next
    case other
    then show ?thesis unfolding parts_def by (simp add: parse_timestamp_def)
  qed
qed

text \<open>
  C4. A clock text of two digit tokens \<open>m:s\<close> parses to \<open>m * 60 + s\<close>, one of three digit
  tokens \<open>h:m:s\<close> to \<open>h * 3600 + m * 60 + s\<close>. Any other number of tokens raises the
  \<^verbatim>\<open>ValueError\<close> "Invalid timestamp format", and so does (with the message of \<^verbatim>\<open>int\<close>)
  any token that \<^verbatim>\<open>int\<close> rejects; \<^verbatim>\<open>int\<close> rejects every token holding a character that
  is neither a digit, a sign, an underscore nor white space.
\<close>

theorem parse_timestamp_clock:
  "(is_number m \<and> is_number s \<longrightarrow>
      parse_timestamp (m @ '':'' @ s) = Inr (int (number_value m) * 60 + int (number_value s)))
   \<and> (is_number h \<and> is_number m' \<and> is_number s' \<longrightarrow>
      parse_timestamp (h @ '':'' @ m' @ '':'' @ s') =
        Inr (int (number_value h) * 3600 + int (number_value m') * 60 + int (number_value s')))
   \<and> (length (split CHR '':'' (strip t)) \<noteq> 2 \<and> length (split CHR '':'' (strip t)) \<noteq> 3 \<longrightarrow>
      parse_timestamp t = Inl (ValueError (''Invalid timestamp format: '' @ t)))
   \<and> (tok \<in> set (split CHR '':'' (strip t')) \<and> py_int tok = None \<longrightarrow>
      (\<exists>msg. parse_timestamp t' = Inl (ValueError msg)))
   \<and> (c \<in> set tok' \<and> \<not> isdigit c \<and> \<not> int_space c \<and>
       c \<noteq> CHR ''+'' \<and> c \<noteq> CHR ''-'' \<and> c \<noteq> CHR ''_'' \<longrightarrow>
      py_int tok' = None)"
proof (intro conjI impI)
  assume a: "is_number m \<and> is_number s"
  have "split CHR '':'' (strip (m @ '':'' @ s)) = [m, s]"
    using a by (simp add: strip_numbers split_append split_notin is_number_no_colon)
  then show "parse_timestamp (m @ '':'' @ s) =
      Inr (int (number_value m) * 60 + int (number_value s))"
    using a by (intro parse_timestamp_two) (auto simp: py_int_number)
next
  assume a: "is_number h \<and> is_number m' \<and> is_number s'"
  have e: "hd (h @ '':'' @ m' @ '':'' @ s') = hd h" "last (h @ '':'' @ m' @ '':'' @ s') = last s'"
    using a by (auto simp: is_number_def)
  have "strip (h @ '':'' @ m' @ '':'' @ s') = h @ '':'' @ m' @ '':'' @ s'"
    using a e is_number_ends by (intro strip_id) auto
  then have "split CHR '':'' (strip (h @ '':'' @ m' @ '':'' @ s')) = [h, m', s']"
    using a by (simp add: split_append split_notin is_number_no_colon)
  then show "parse_timestamp (h @ '':'' @ m' @ '':'' @ s') =
        Inr (int (number_value h) * 3600 + int (number_value m') * 60 + int (number_value s'))"
    using a by (intro parse_timestamp_three) (auto simp: py_int_number)
next
  assume "length (split CHR '':'' (strip t)) \<noteq> 2 \<and> length (split CHR '':'' (strip t)) \<noteq> 3"
  then show "parse_timestamp t = Inl (ValueError (''Invalid timestamp format: '' @ t))"
    by (simp add: parse_timestamp_def)
next
  assume "tok \<in> set (split CHR '':'' (strip t')) \<and> py_int tok = None"
  then show "\<exists>msg. parse_timestamp t' = Inl (ValueError msg)"
    using parse_timestamp_bad_token by blast
next
  assume "c \<in> set tok' \<and> \<not> isdigit c \<and> \<not> int_space c \<and>
       c \<noteq> CHR ''+'' \<and> c \<noteq> CHR ''-'' \<and> c \<noteq> CHR ''_''"
  then show "py_int tok' = None" using py_int_bad by blast
qed

lemma clock_example_numbers:
  "is_number ''2'' \<and> is_number ''05'' \<and> is_number ''1'' \<and> is_number ''34'' \<and> is_number ''30''
   \<and> number_value ''2'' = 2 \<and> number_value ''05'' = 5 \<and> number_value ''1'' = 1
   \<and> number_value ''34'' = 34 \<and> number_value ''30'' = 30"
  by code_simp

lemma clock_example_tokens:
  "length (split CHR '':'' (strip ''1:2:3:4'')) = 4
   \<and> split CHR '':'' (strip ''1:xx'') = [''1'', ''xx'']
   \<and> \<not> isdigit CHR ''x'' \<and> \<not> int_space CHR ''x''"
  by code_simp

theorem parse_timestamp_clock_witness:
  "parse_timestamp ''2:05'' = Inr 125 \<and> parse_timestamp ''1:34:30'' = Inr 5670
   \<and> parse_timestamp ''1:2:3:4'' = Inl (ValueError ''Invalid timestamp format: 1:2:3:4'')
   \<and> (\<exists>msg. parse_timestamp ''1:xx'' = Inl (ValueError msg)) \<and> py_int ''xx'' = None"
proof -
  note th = parse_timestamp_clock [of "''2''" "''05''" "''1''" "''34''" "''30''" "''1:2:3:4''"
      "''xx''" "''1:xx''" "CHR ''x''" "''xx''"]
  have bad: "py_int ''xx'' = None" using th clock_example_tokens by simp
  show ?thesis using th clock_example_numbers clock_example_tokens bad by simp
qed

section \<open>Ranges\<close>

lemma int_of_token_error: "int_of_token tok = Inl e \<Longrightarrow> \<exists>m. e = ValueError m"
  by (auto simp: int_of_token_def int_literal_error_def split: option.splits)

lemma parse_timestamp_error: "parse_timestamp t = Inl e \<Longrightarrow> \<exists>m. e = ValueError m"
  by (auto simp: parse_timestamp_def Let_def split: if_splits sum.splits dest: int_of_token_error)

lemma parse_range_error: "parse_range rs = Inl e \<Longrightarrow> \<exists>m. e = ValueError m"
  by (auto simp: parse_range_def Let_def split: if_splits sum.splits dest: parse_timestamp_error)

lemma parse_range_ordered: "parse_range rs = Inr r \<Longrightarrow> start r < end' r"
  by (auto simp: parse_range_def Let_def split: if_splits sum.splits)

lemma parse_range_reversed:
  assumes "split CHR ''-'' rs = [a, b]" "parse_timestamp (strip a) = Inr s"
    "parse_timestamp (strip b) = Inr e" "s \<ge> e"
  shows "parse_range rs =
    Inl (ValueError (''Invalid range: start time must be before end time in '' @ rs))"
  using assms by (simp add: parse_range_def)

lemma parse_ranges_loop_error:
  "parse_ranges_loop acc segs = Inl e \<Longrightarrow> \<exists>m. e = ValueError m"
  by (induction segs arbitrary: acc)
     (auto simp: Let_def split: if_splits sum.splits dest: parse_range_error)

lemma parse_timestamp_ranges_error:
  "parse_timestamp_ranges text = Inl e \<Longrightarrow> \<exists>m. e = ValueError m"
  unfolding parse_timestamp_ranges_def by (rule parse_ranges_loop_error)

lemma parse_ranges_loop_fails:
  "seg \<in> set segs \<Longrightarrow> strip seg \<noteq> [] \<Longrightarrow> parse_range (strip seg) = Inl e \<Longrightarrow>
   \<exists>e'. parse_ranges_loop acc segs = Inl e'"
  by (induction segs arbitrary: acc) (auto simp: Let_def split: sum.splits)

lemma parse_ranges_loop_ordered:
  "parse_ranges_loop acc segs = Inr rs \<Longrightarrow> \<forall>r\<in>set acc. start r < end' r \<Longrightarrow>
   \<forall>r\<in>set rs. start r < end' r"
proof (induction segs arbitrary: acc)
  case Nil
  then show ?case by simp
next
  case (Cons seg segs)
  show ?case
  proof (cases "strip seg = []")
    case True
    with Cons show ?thesis by simp
  next
    case False
    with Cons.prems(1) obtain r where r: "parse_range (strip seg) = Inr r"
      and rest: "parse_ranges_loop (acc @ [r]) segs = Inr rs"
      by (auto simp: Let_def split: sum.splits)
    from r have "start r < end' r" by (rule parse_range_ordered)
    with Cons.prems(2) have "\<forall>x\<in>set (acc @ [r]). start x < end' x" by simp
    with Cons.IH[OF rest] show ?thesis .
  qed
qed

lemma parse_ranges_loop_segments:
  "parse_ranges_loop acc segs = Inr rs \<Longrightarrow>
   map Inr rs = map Inr acc @
     map (\<lambda>seg. parse_range (strip seg)) (filter (\<lambda>seg. strip seg \<noteq> []) segs)"
  by (induction segs arbitrary: acc) (auto simp: Let_def split: if_splits sum.splits)

lemma parse_ranges_loop_blank:
  "\<forall>seg\<in>set segs. strip seg = [] \<Longrightarrow> parse_ranges_loop acc segs = Inr acc"
  by (induction segs) auto

text \<open>
  C5. A text that is one range \<open>a-b\<close> whose endpoints parse, with the value of \<open>a\<close> at
  least that of \<open>b\<close>, raises the \<^verbatim>\<open>ValueError\<close> "Invalid range: start time must be
  before end time in" followed by the range text; a text with such a range among its
  segments raises a \<^verbatim>\<open>ValueError\<close>; and every range of a list that
  \<^verbatim>\<open>parse_timestamp_ranges\<close> returns has its start strictly before its end.
\<close>

theorem parse_rejects_reversed_range:
  "(CHR '','' \<notin> set text \<and> strip text \<noteq> [] \<and> split CHR ''-'' (strip text) = [a, b] \<and>
      parse_timestamp (strip a) = Inr s \<and> parse_timestamp (strip b) = Inr e \<and> s \<ge> e \<longrightarrow>
      parse_timestamp_ranges text =
        Inl (ValueError (''Invalid range: start time must be before end time in '' @ strip text)))
   \<and> (seg \<in> set (split CHR '','' text') \<and> strip seg \<noteq> [] \<and>
       split CHR ''-'' (strip seg) = [a', b'] \<and>
       parse_timestamp (strip a') = Inr s' \<and> parse_timestamp (strip b') = Inr e' \<and> s' \<ge> e' \<longrightarrow>
      (\<exists>msg. parse_timestamp_ranges text' = Inl (ValueError msg)))
   \<and> (parse_timestamp_ranges text'' = Inr ranges \<longrightarrow> (\<forall>r\<in>set ranges. start r < end' r))"
proof (intro conjI impI)
  assume h: "CHR '','' \<notin> set text \<and> strip text \<noteq> [] \<and> split CHR ''-'' (strip text) = [a, b] \<and>
      parse_timestamp (strip a) = Inr s \<and> parse_timestamp (strip b) = Inr e \<and> s \<ge> e"
  then have "parse_range (strip text) =
      Inl (ValueError (''Invalid range: start time must be before end time in '' @ strip text))"
    by (intro parse_range_reversed) auto
  with h show "parse_timestamp_ranges text =
        Inl (ValueError (''Invalid range: start time must be before end time in '' @ strip text))"
    by (simp add: parse_timestamp_ranges_def split_notin)
next
  assume h: "seg \<in> set (split CHR '','' text') \<and> strip seg \<noteq> [] \<and>
       split CHR ''-'' (strip seg) = [a', b'] \<and>
       parse_timestamp (strip a') = Inr s' \<and> parse_timestamp (strip b') = Inr e' \<and> s' \<ge> e'"
  then have "\<exists>err. parse_range (strip seg) = Inl err"
    using parse_range_reversed[of "strip seg" a' b' s' e'] by auto
  with h obtain e2 where "parse_timestamp_ranges text' = Inl e2"
    unfolding parse_timestamp_ranges_def using parse_ranges_loop_fails by blast
  then show "\<exists>msg. parse_timestamp_ranges text' = Inl (ValueError msg)"
    using parse_timestamp_ranges_error by blast
next
  assume "parse_timestamp_ranges text'' = Inr ranges"
  then show "\<forall>r\<in>set ranges. start r < end' r"
    unfolding parse_timestamp_ranges_def by (rule parse_ranges_loop_ordered) simp
qed

lemma reversed_example_single:
  "CHR '','' \<notin> set ''5:00 - 4:00'' \<and> strip ''5:00 - 4:00'' = ''5:00 - 4:00'' \<and>
   split CHR ''-'' ''5:00 - 4:00'' = [''5:00 '', '' 4:00''] \<and>
   parse_timestamp (strip ''5:00 '') = Inr 300 \<and> parse_timestamp (strip '' 4:00'') = Inr 240"
  by code_simp

lemma reversed_example_segment:
  "'' 2:00-2:00'' \<in> set (split CHR '','' ''0:10-0:20, 2:00-2:00'') \<and>
   strip '' 2:00-2:00'' = ''2:00-2:00'' \<and>
   split CHR ''-'' ''2:00-2:00'' = [''2:00'', ''2:00''] \<and>
   parse_timestamp (strip ''2:00'') = Inr 120"
  by code_simp

lemma ordered_example:
  "parse_timestamp_ranges ''0:10-0:20'' =
     Inr [\<lparr>start = 10, end' = 20, start_str = ''0:10'', end_str = ''0:20''\<rparr>]"
  by code_simp

theorem parse_rejects_reversed_range_witness:
  "parse_timestamp_ranges ''5:00 - 4:00'' =
     Inl (ValueError ''Invalid range: start time must be before end time in 5:00 - 4:00'')
   \<and> (\<exists>msg. parse_timestamp_ranges ''0:10-0:20, 2:00-2:00'' = Inl (ValueError msg))
   \<and> start \<lparr>start = 10, end' = 20, start_str = ''0:10'', end_str = ''0:20''\<rparr>
       < end' \<lparr>start = 10, end' = 20, start_str = ''0:10'', end_str = ''0:20''\<rparr>"
  using parse_rejects_reversed_range [of "''5:00 - 4:00''" "''5:00 ''" "'' 4:00''" 300 240
      "'' 2:00-2:00''" "''0:10-0:20, 2:00-2:00''" "''2:00''" "''2:00''" 120 120 "''0:10-0:20''"
      "[\<lparr>start = 10, end' = 20, start_str = ''0:10'', end_str = ''0:20''\<rparr>]"]
    reversed_example_single reversed_example_segment ordered_example
  by simp

text \<open>
  C6. The text is split at the commas and blank segments are passed over: a text of
  blank segments only, such as \<open>,,\<close>, gives the empty list and no error. The list
  returned is, in order, what the non-blank segments parse to; and the text
  \<open>1:34:30 - 1:40:43, 40:43 - 45:00\<close> gives the ranges (5670, 6043) and (2443, 2700).
\<close>

theorem parse_skips_blank_keeps_order:
  "((\<forall>seg\<in>set (split CHR '','' text). strip seg = []) \<longrightarrow> parse_timestamp_ranges text = Inr [])
   \<and> parse_timestamp_ranges '',,'' = Inr []
   \<and> (parse_timestamp_ranges text' = Inr ranges \<longrightarrow>
        map Inr ranges = map (\<lambda>seg. parse_range (strip seg))
                          (filter (\<lambda>seg. strip seg \<noteq> []) (split CHR '','' text')))
   \<and> parse_timestamp_ranges ''1:34:30 - 1:40:43, 40:43 - 45:00'' =
        Inr [\<lparr>start = 5670, end' = 6043, start_str = ''1:34:30'', end_str = ''1:40:43''\<rparr>,
             \<lparr>start = 2443, end' = 2700, start_str = ''40:43'', end_str = ''45:00''\<rparr>]"
proof (intro conjI impI)
  assume "\<forall>seg\<in>set (split CHR '','' text). strip seg = []"
  then show "parse_timestamp_ranges text = Inr []"
    unfolding parse_timestamp_ranges_def by (rule parse_ranges_loop_blank)
next
  show "parse_timestamp_ranges '',,'' = Inr []" by code_simp
next
  assume "parse_timestamp_ranges text' = Inr ranges"
  then show "map Inr ranges = map (\<lambda>seg. parse_range (strip seg))
                          (filter (\<lambda>seg. strip seg \<noteq> []) (split CHR '','' text'))"
    unfolding parse_timestamp_ranges_def using parse_ranges_loop_segments by fastforce
next
  show "parse_timestamp_ranges ''1:34:30 - 1:40:43, 40:43 - 45:00'' =
        Inr [\<lparr>start = 5670, end' = 6043, start_str = ''1:34:30'', end_str = ''1:40:43''\<rparr>,
             \<lparr>start = 2443, end' = 2700, start_str = ''40:43'', end_str = ''45:00''\<rparr>]"
    by code_simp
qed

lemma blank_example: "\<forall>seg\<in>set (split CHR '','' '' , ''). strip seg = []"
  by code_simp

lemma order_example_parse:
  "parse_timestamp_ranges ''0:10-0:20,,0:01-0:02'' =
     Inr [\<lparr>start = 10, end' = 20, start_str = ''0:10'', end_str = ''0:20''\<rparr>,
          \<lparr>start = 1, end' = 2, start_str = ''0:01'', end_str = ''0:02''\<rparr>]"
  by code_simp

lemma order_example_segments:
  "map (\<lambda>seg. parse_range (strip seg))
     (filter (\<lambda>seg. strip seg \<noteq> []) (split CHR '','' ''0:10-0:20,,0:01-0:02''))
   = [parse_range ''0:10-0:20'', parse_range ''0:01-0:02'']"
  by code_simp

theorem parse_skips_blank_keeps_order_witness:
  "parse_timestamp_ranges '' , '' = Inr []
   \<and> [Inr \<lparr>start = 10, end' = 20, start_str = ''0:10'', end_str = ''0:20''\<rparr>,
       Inr \<lparr>start = 1, end' = 2, start_str = ''0:01'', end_str = ''0:02''\<rparr>]
      = [parse_range ''0:10-0:20'', parse_range ''0:01-0:02'']"
proof -
  note th = parse_skips_blank_keeps_order [of "'' , ''" "''0:10-0:20,,0:01-0:02''"
      "[\<lparr>start = 10, end' = 20, start_str = ''0:10'', end_str = ''0:20''\<rparr>,
        \<lparr>start = 1, end' = 2, start_str = ''0:01'', end_str = ''0:02''\<rparr>]"]
  have 1: "parse_timestamp_ranges '' , '' = Inr []"
    using th blank_example by blast
  have "map Inr [\<lparr>start = 10, end' = 20, start_str = ''0:10'', end_str = ''0:20''\<rparr>,
                 \<lparr>start = 1, end' = 2, start_str = ''0:01'', end_str = ''0:02''\<rparr>]
        = map (\<lambda>seg. parse_range (strip seg))
            (filter (\<lambda>seg. strip seg \<noteq> []) (split CHR '','' ''0:10-0:20,,0:01-0:02''))"
    using th order_example_parse by blast
  then have 2: "[Inr \<lparr>start = 10, end' = 20, start_str = ''0:10'', end_str = ''0:20''\<rparr>,
       Inr \<lparr>start = 1, end' = 2, start_str = ''0:01'', end_str = ''0:02''\<rparr>]
      = [parse_range ''0:10-0:20'', parse_range ''0:01-0:02'']"
    unfolding order_example_segments by (simp only: list.map)
  show ?thesis using 1 2 by (rule conjI)
qed

section \<open>File names\<close>

text \<open>
  C2. The name of the clip of the \<open>i\<close>-th range is the base token, a hyphen, \<open>i\<close> in
  decimal (reading it back with \<^verbatim>\<open>int\<close> gives \<open>i\<close>), a hyphen, an opening bracket, the
  start label with every colon turned into an underscore, a space, a hyphen, a space,
  the end label treated likewise, a closing bracket and \<open>.mp4\<close>; the base token is
  taken as it is. Token \<open>Show\<close>, number 2 and labels \<open>1:00\<close>, \<open>2:30\<close> give
  \<open>Show-2-[1_00 - 2_30].mp4\<close>.
\<close>

theorem output_filename_format:
  "output_filename tok i r =
     tok @ ''-'' @ str i @ ''-['' @ map (\<lambda>c. if c = CHR '':'' then CHR ''_'' else c) (start_str r)
       @ '' - '' @ map (\<lambda>c. if c = CHR '':'' then CHR ''_'' else c) (end_str r) @ ''].mp4''
   \<and> py_int (str i) = Some i
   \<and> output_filename ''Show'' 2 \<lparr>start = 60, end' = 150, start_str = ''1:00'', end_str = ''2:30''\<rparr>
       = ''Show-2-[1_00 - 2_30].mp4''"
proof (intro conjI)
  show "output_filename ''Show'' 2 \<lparr>start = 60, end' = 150, start_str = ''1:00'', end_str = ''2:30''\<rparr>
       = ''Show-2-[1_00 - 2_30].mp4''"
    by code_simp
qed (simp_all add: output_filename_def replace_def py_int_str)

text \<open>
  C3. The claim that \<^verbatim>\<open>get_first_word\<close> never returns the empty text fails: the
  fallback \<open>clip\<close> is reached only when no delimiter is found. For a name that begins
  with a delimiter the text before the delimiter is returned, and it is empty.
\<close>

theorem get_first_word_leading_delimiter:
  "get_first_word ''_.mp4'' = [] \<and> get_first_word ''-a.mp4'' = [] \<and> get_first_word '' x.mp4'' = []"
  by code_simp

section \<open>The request handlers\<close>

subsection \<open>File system, child processes and the clip records\<close>

lemma rmtree_fields [simp]:
  "temp_clips (rmtree d w) = temp_clips w" "calls (rmtree d w) = calls w"
  "urandom_calls (rmtree d w) = urandom_calls w"
  by (simp_all add: rmtree_def)

lemma rmtree_removes:
  "d \<notin> dirs (rmtree d w)" "inside d p \<Longrightarrow> files (rmtree d w) p = None"
  "inside d p \<Longrightarrow> p \<notin> dirs (rmtree d w)"
  by (simp_all add: rmtree_def inside_def)

lemma subprocess_run_fst: "fst (subprocess_run env cmd w) = run env (length (calls w)) cmd"
  by (simp add: subprocess_run_def Let_def split: sum.splits)

lemma subprocess_run_snd [simp]:
  "calls (snd (subprocess_run env cmd w)) = calls w @ [cmd]"
  "temp_clips (snd (subprocess_run env cmd w)) = temp_clips w"
  "dirs (snd (subprocess_run env cmd w)) = dirs w"
  "urandom_calls (snd (subprocess_run env cmd w)) = urandom_calls w"
  by (simp_all add: subprocess_run_def Let_def split: sum.splits option.splits)

lemma store_clip_snd [simp]:
  "calls (snd (store_clip env j i r clips w)) = calls w"
  "dirs (snd (store_clip env j i r clips w)) = dirs w"
  "files (snd (store_clip env j i r clips w)) = files w"
  by (simp_all add: store_clip_def Let_def)

lemma store_clip_saved: "save_to_path j \<Longrightarrow> snd (store_clip env j i r clips w) = w"
  by (simp add: store_clip_def)

lemma store_clip_fst:
  "fst (store_clip env j i r clips w) =
     clips @ [\<lparr>clip_id = (if save_to_path j then None
                           else Some (''clip_'' @ str i @ ''_'' @ urandom_hex env (urandom_calls w))),
               clip_filename = output_filename (first_word j) i r\<rparr>]"
  by (simp add: store_clip_def Let_def)

subsection \<open>One range\<close>

lemma cut_clip_unfold:
  "cut_clip env j i r clips w =
     (let c1 = copy_cmd j r (clip_path j i r); c2 = reencode_cmd j r (clip_path j i r);
          w1 = snd (subprocess_run env c1 w); w2 = snd (subprocess_run env c2 w1) in
      case run env (length (calls w)) c1 of
        Inl e \<Rightarrow> Inl (e, w1)
      | Inr result \<Rightarrow>
          if returncode result \<noteq> 0 then
            (case run env (Suc (length (calls w))) c2 of
               Inl e \<Rightarrow> Inl (e, w2)
             | Inr result2 \<Rightarrow>
                 if returncode result2 \<noteq> 0
                 then Inl (Exception (''FFmpeg failed: '' @ stderr result2), w2)
                 else Inr (store_clip env j i r clips w2))
          else Inr (store_clip env j i r clips w1))"
proof -
  have p: "\<And>cmd w. subprocess_run env cmd w =
      (run env (length (calls w)) cmd, snd (subprocess_run env cmd w))"
    by (simp add: subprocess_run_fst [symmetric])
  show ?thesis
    unfolding cut_clip_def Let_def
    by (subst p, simp only: prod.case, subst p, simp only: prod.case subprocess_run_snd)
       (simp split: sum.splits)
qed

lemma outcome_world_simps [simp]:
  "outcome_world (Inl ew) = snd ew" "outcome_world (Inr cw) = snd cw"
  by (simp_all add: outcome_world_def split: prod.splits)

lemma cut_clip_saved:
  "save_to_path j \<Longrightarrow> temp_clips (outcome_world (cut_clip env j i r clips w)) = temp_clips w"
  by (simp add: cut_clip_unfold Let_def store_clip_saved split: sum.splits)

lemma cut_clip_result_fst:
  "cut_clip env j i r clips w = Inr cw \<Longrightarrow>
   fst cw = clips @ [\<lparr>clip_id = (if save_to_path j then None
                           else Some (''clip_'' @ str i @ ''_'' @ urandom_hex env (urandom_calls w))),
               clip_filename = output_filename (first_word j) i r\<rparr>]"
  by (auto simp: cut_clip_unfold Let_def store_clip_fst split: sum.splits if_splits)

lemma cut_clip_result:
  assumes "cut_clip env j i r clips w = Inr (clips1, w1)"
  shows "clips1 = clips @ [\<lparr>clip_id = (if save_to_path j then None
                           else Some (''clip_'' @ str i @ ''_'' @ urandom_hex env (urandom_calls w))),
               clip_filename = output_filename (first_word j) i r\<rparr>]"
  using cut_clip_result_fst[OF assms] by simp

subsection \<open>The loop\<close>

lemma clip_loop_saved:
  "save_to_path j \<Longrightarrow> temp_clips (outcome_world (clip_loop env j i rs clips w)) = temp_clips w"
proof (induction rs arbitrary: i clips w)
  case Nil
  then show ?case by simp
next
  case (Cons r rs)
  show ?case
  proof (cases "cut_clip env j i r clips w")
    case (Inl ew)
    then show ?thesis using cut_clip_saved[OF Cons.prems, of env i r clips w] by simp
  next
    case (Inr cw)
    obtain c0 w0 where cw: "cw = (c0, w0)" by (cases cw)
    with Inr show ?thesis
      using cut_clip_saved[OF Cons.prems, of env i r clips w] Cons.IH[OF Cons.prems, of "i + 1" c0 w0]
      by simp
  qed
qed

lemma clip_loop_result:
  assumes "clip_loop env j i rs clips w = Inr (clips1, w1)"
  shows "map clip_filename clips1 = map clip_filename clips @ expected_names (first_word j) i rs"
    and "save_to_path j \<Longrightarrow> (\<forall>c\<in>set clips. clip_id c = None) \<Longrightarrow> \<forall>c\<in>set clips1. clip_id c = None"
  using assms
proof (induction rs arbitrary: i clips w)
  case Nil
  { case 1 then show ?case by simp }
  { case 2 then show ?case by simp }
next
  case (Cons r rs)
  { case 1
    then obtain c0 w0 where s: "cut_clip env j i r clips w = Inr (c0, w0)"
      and l: "clip_loop env j (i + 1) rs c0 w0 = Inr (clips1, w1)"
      by (auto split: sum.splits)
    from Cons.IH(1)[OF l] cut_clip_result[OF s] show ?case by simp }
  { case 2
    from 2(3) obtain c0 w0 where s: "cut_clip env j i r clips w = Inr (c0, w0)"
      and l: "clip_loop env j (i + 1) rs c0 w0 = Inr (clips1, w1)"
      by (auto split: sum.splits)
    have "\<forall>c\<in>set c0. clip_id c = None" using cut_clip_result[OF s] 2(1,2) by simp
    from Cons.IH(2)[OF 2(1) this l] show ?case . }
qed

lemma clip_loop_append_fail:
  assumes "clip_loop env j i pre clips w = Inr (clips1, w1)"
    and "cut_clip env j (i + int (length pre)) r clips1 w1 = Inl ew"
  shows "clip_loop env j i (pre @ r # post) clips w = Inl ew"
  using assms
proof (induction pre arbitrary: i clips w)
  case Nil
  then show ?case by simp
next
  case (Cons p pre)
  from Cons.prems(1) obtain c0 w0 where s: "cut_clip env j i p clips w = Inr (c0, w0)"
    and l: "clip_loop env j (i + 1) pre c0 w0 = Inr (clips1, w1)"
    by (auto split: sum.splits)
  have "i + 1 + int (length pre) = i + int (length (p # pre))" by simp
  with Cons.prems(2) have "cut_clip env j (i + 1 + int (length pre)) r clips1 w1 = Inl ew"
    by (simp add: add.assoc)
  from Cons.IH[OF l this] s show ?case by simp
qed

subsection \<open>Before the loop\<close>

lemma validate_output_path_Inl:
  "validate_output_path env req w = Inl resp \<Longrightarrow> \<exists>m. resp = Json_error m 400"
  by (auto simp: validate_output_path_def Let_def split: if_splits sum.splits)

lemma validate_output_path_Inr:
  assumes "validate_output_path env req w = Inr (save, out, w1)"
  shows "save \<longleftrightarrow> strip (case outputPath req of None \<Rightarrow> [] | Some p \<Rightarrow> p) \<noteq> []"
    and "save \<Longrightarrow> out = expanduser env (strip (case outputPath req of None \<Rightarrow> [] | Some p \<Rightarrow> p))"
    and "calls w1 = calls w" "files w1 = files w" "temp_clips w1 = temp_clips w"
    and "urandom_calls w1 = urandom_calls w"
    and "dirs w \<subseteq> dirs w1"
    and "dirs w1 \<subseteq> dirs w \<union> set (expanduser env (strip (case outputPath req of None \<Rightarrow> [] | Some p \<Rightarrow> p))
            # parents (expanduser env (strip (case outputPath req of None \<Rightarrow> [] | Some p \<Rightarrow> p))))"
    and "strip (case outputPath req of None \<Rightarrow> [] | Some p \<Rightarrow> p) = [] \<or>
         path_exists w (expanduser env (strip (case outputPath req of None \<Rightarrow> [] | Some p \<Rightarrow> p)))
         \<Longrightarrow> w1 = w"
  using assms
  by (auto simp: validate_output_path_def Let_def makedirs_def split: if_splits sum.splits option.splits)

lemma prepare_Inl_cases:
  assumes "prepare env req w = Inl (resp, w1)"
  shows "w1 = w \<or> (\<exists>save out. validate_output_path env req w = Inr (save, out, w1))"
  using assms
  by (auto simp: prepare_def Let_def split: option.splits prod.splits if_splits sum.splits error.splits)

lemma prepare_Inl_status:
  assumes "prepare env req w = Inl (resp, w1)"
    and "parse_timestamp_ranges (case timestamps req of None \<Rightarrow> [] | Some t \<Rightarrow> t) = Inl e"
  shows "\<exists>m. resp = Json_error m 400"
  using assms parse_timestamp_ranges_error[OF assms(2)]
  by (auto simp: prepare_def Let_def split: option.splits prod.splits if_splits sum.splits error.splits
      dest: validate_output_path_Inl)

lemma prepare_Inr:
  assumes "prepare env req w = Inr (j, ranges, w2)"
  shows "\<exists>fname bytes save out w1.
      video req = Some (fname, bytes) \<and>
      validate_output_path env req w = Inr (save, out, w1) \<and>
      parse_timestamp_ranges (case timestamps req of None \<Rightarrow> [] | Some t \<Rightarrow> t) = Inr ranges \<and>
      save_to_path j = save \<and> output_path j = out \<and> scratch_dir j = mkdtemp env w1 \<and>
      first_word j = get_first_word fname \<and> ffmpeg_cmd j = ''ffmpeg'' \<and>
      w2 = w1\<lparr>dirs := insert (mkdtemp env w1) (dirs w1), files := (files w1)(input_path j \<mapsto> bytes)\<rparr>"
  using assms
  by (auto simp: prepare_def Let_def get_ffmpeg_command_def
      split: option.splits prod.splits if_splits sum.splits error.splits)

lemma prepare_Inr_fields:
  assumes "prepare env req w = Inr (j, ranges, w2)"
  shows "temp_clips w2 = temp_clips w" "calls w2 = calls w" "urandom_calls w2 = urandom_calls w"
    and "save_to_path j \<longleftrightarrow> strip (case outputPath req of None \<Rightarrow> [] | Some p \<Rightarrow> p) \<noteq> []"
    and "save_to_path j \<Longrightarrow>
         output_path j = expanduser env (strip (case outputPath req of None \<Rightarrow> [] | Some p \<Rightarrow> p))"
    and "parse_timestamp_ranges (case timestamps req of None \<Rightarrow> [] | Some t \<Rightarrow> t) = Inr ranges"
proof -
  from prepare_Inr[OF assms] obtain fname bytes save out w1 where
    v: "validate_output_path env req w = Inr (save, out, w1)"
    and p: "parse_timestamp_ranges (case timestamps req of None \<Rightarrow> [] | Some t \<Rightarrow> t) = Inr ranges"
    and j: "save_to_path j = save" "output_path j = out"
    and w2: "w2 = w1\<lparr>dirs := insert (mkdtemp env w1) (dirs w1), files := (files w1)(input_path j \<mapsto> bytes)\<rparr>"
    by blast
  note f = validate_output_path_Inr[OF v]
  show "temp_clips w2 = temp_clips w" "calls w2 = calls w" "urandom_calls w2 = urandom_calls w"
    using w2 f(3,5,6) by simp_all
  show "save_to_path j \<longleftrightarrow> strip (case outputPath req of None \<Rightarrow> [] | Some p \<Rightarrow> p) \<noteq> []"
    using j(1) f(1) by simp
  show "save_to_path j \<Longrightarrow>
         output_path j = expanduser env (strip (case outputPath req of None \<Rightarrow> [] | Some p \<Rightarrow> p))"
    using j f(2) by simp
  show "parse_timestamp_ranges (case timestamps req of None \<Rightarrow> [] | Some t \<Rightarrow> t) = Inr ranges"
    by (rule p)
qed

lemma prepare_parse_fails:
  assumes "parse_timestamp_ranges (case timestamps req of None \<Rightarrow> [] | Some t \<Rightarrow> t) = Inl e"
  shows "\<exists>resp w1. prepare env req w = Inl (resp, w1)"
proof (cases "prepare env req w")
  case (Inl rw)
  then show ?thesis by (cases rw) auto
next
  case (Inr x)
  then obtain j ranges w2 where "prepare env req w = Inr (j, ranges, w2)" by (cases x) auto
  from prepare_Inr_fields(6)[OF this] assms show ?thesis by simp
qed

text \<open>
  C7, as amended. When the timestamp text does not parse, \<^verbatim>\<open>split_video\<close> answers with
  status 400; no child process has been started, no file has been written, the
  dictionary \<^verbatim>\<open>temp_clips\<close> and the scratch area are as before. The directories are
  those of before, possibly with the requested output directory and its ancestors
  added: \<^verbatim>\<open>os.makedirs\<close> runs while the output path is checked, which is before the
  timestamps are parsed. When no output path is given, or the path exists already,
  the world is unchanged.
\<close>

theorem malformed_timestamps_rejected_early:
  assumes "parse_timestamp_ranges (case timestamps req of None \<Rightarrow> [] | Some t \<Rightarrow> t) = Inl e"
  shows "(\<exists>m. fst (split_video env req w) = Json_error m 400)
    \<and> calls (snd (split_video env req w)) = calls w
    \<and> files (snd (split_video env req w)) = files w
    \<and> temp_clips (snd (split_video env req w)) = temp_clips w
    \<and> urandom_calls (snd (split_video env req w)) = urandom_calls w
    \<and> dirs w \<subseteq> dirs (snd (split_video env req w))
    \<and> dirs (snd (split_video env req w)) \<subseteq> dirs w \<union>
         set (expanduser env (strip (case outputPath req of None \<Rightarrow> [] | Some p \<Rightarrow> p))
              # parents (expanduser env (strip (case outputPath req of None \<Rightarrow> [] | Some p \<Rightarrow> p))))
    \<and> (strip (case outputPath req of None \<Rightarrow> [] | Some p \<Rightarrow> p) = [] \<or>
        path_exists w (expanduser env (strip (case outputPath req of None \<Rightarrow> [] | Some p \<Rightarrow> p)))
        \<longrightarrow> snd (split_video env req w) = w)"
proof -
  from prepare_parse_fails[OF assms] obtain resp w1 where p: "prepare env req w = Inl (resp, w1)"
    by blast
  then have sv: "split_video env req w = (resp, w1)" by (simp add: split_video_def)
  from prepare_Inl_status[OF p assms] have st: "\<exists>m. resp = Json_error m 400" .
  from prepare_Inl_cases[OF p] show ?thesis
  proof
    assume "w1 = w"
    then show ?thesis using sv st by auto
  next
    assume "\<exists>save out. validate_output_path env req w = Inr (save, out, w1)"
    then obtain save out where v: "validate_output_path env req w = Inr (save, out, w1)" by blast
    note f = validate_output_path_Inr[OF v]
    show ?thesis unfolding sv fst_conv snd_conv
      using st f(3,4,5,6,7,8) f(9) by blast
  qed
qed

text \<open>
  C8. A request with an output directory that is answered with success: the answer
  names that directory as \<open>saved_to_path\<close>, no clip descriptor has an id, the
  descriptors carry the names of the ranges in order, \<^verbatim>\<open>temp_clips\<close> is what it was
  before the request, and the scratch directory of the job, with everything in it,
  is gone from the world that the answer is given in.
\<close>

theorem saved_job_leaves_no_records:
  assumes "strip (case outputPath req of None \<Rightarrow> [] | Some p \<Rightarrow> p) \<noteq> []"
    and "split_video env req w = (Json_success clips saved, w')"
  shows "\<exists>j ranges w0. prepare env req w = Inr (j, ranges, w0)
    \<and> saved = Some (expanduser env (strip (case outputPath req of None \<Rightarrow> [] | Some p \<Rightarrow> p)))
    \<and> (\<forall>c\<in>set clips. clip_id c = None)
    \<and> map clip_filename clips = expected_names (first_word j) 1 ranges
    \<and> temp_clips w' = temp_clips w
    \<and> scratch_dir j \<notin> dirs w'
    \<and> (\<forall>p. inside (scratch_dir j) p \<longrightarrow> files w' p = None)"
proof (cases "prepare env req w")
  case (Inl rw)
  with assms(2) have p: "prepare env req w = Inl (Json_success clips saved, w')"
    by (simp add: split_video_def)
  have "\<exists>m st. Json_success clips saved = Json_error m st"
    using p
    by (auto simp: prepare_def Let_def split: option.splits prod.splits if_splits sum.splits error.splits
        dest: validate_output_path_Inl)
  then show ?thesis by simp
next
  case (Inr x)
  then obtain j ranges w0 where p: "prepare env req w = Inr (j, ranges, w0)" by (cases x) auto
  note pf = prepare_Inr_fields[OF p]
  from pf(4) assms(1) have save: "save_to_path j" by simp
  show ?thesis
  proof (cases "clip_loop env j 1 ranges [] w0")
    case (Inl ew)
    with p assms(2) show ?thesis by (simp add: split_video_def split: prod.splits)
  next
    case (Inr cw)
    then obtain clips1 w3 where l: "clip_loop env j 1 ranges [] w0 = Inr (clips1, w3)"
      by (cases cw) auto
    from p l save assms(2) have r: "clips = clips1" "saved = Some (output_path j)"
      "w' = rmtree (scratch_dir j) w3"
      by (simp_all add: split_video_def)
    have t: "temp_clips w3 = temp_clips w0" using clip_loop_saved[OF save, of env 1 ranges "[]" w0] l
      by simp
    from clip_loop_result[OF l] save have c: "map clip_filename clips1 = expected_names (first_word j) 1 ranges"
      "\<forall>c\<in>set clips1. clip_id c = None" by simp_all
    show ?thesis
      using p r c t pf(1) pf(5)[OF save] rmtree_removes(1,2) by auto
  qed
qed

subsection \<open>A range whose first attempt fails\<close>

lemma cut_clip_retry_calls:
  assumes "run env (length (calls w)) (copy_cmd j r (clip_path j i r)) = Inr res1" "returncode res1 \<noteq> 0"
  shows "calls (outcome_world (cut_clip env j i r clips w)) =
      calls w @ [copy_cmd j r (clip_path j i r), reencode_cmd j r (clip_path j i r)]"
  using assms by (simp add: cut_clip_unfold Let_def split: sum.splits)

lemma cut_clip_both_fail:
  assumes "run env (length (calls w)) (copy_cmd j r (clip_path j i r)) = Inr res1" "returncode res1 \<noteq> 0"
    and "run env (Suc (length (calls w))) (reencode_cmd j r (clip_path j i r)) = Inr res2"
      "returncode res2 \<noteq> 0"
  shows "\<exists>w2. cut_clip env j i r clips w = Inl (Exception (''FFmpeg failed: '' @ stderr res2), w2)"
  using assms by (simp add: cut_clip_unfold Let_def)

text \<open>
  C1. Let the ranges before \<open>r\<close> have been cut, and let the stream-copy command for
  \<open>r\<close> exit with a non-zero status. Then the work on \<open>r\<close> consists of exactly two child
  processes, the stream-copy command and after it the re-encode command. If that one
  exits with a non-zero status too, the request is answered with status 500 and the
  message "FFmpeg failed: " followed by the diagnostic output of that process, not
  with a list of clips, and these two are the last child processes of the request:
  the ranges after \<open>r\<close> are not touched.
\<close>

theorem cutter_failure_aborts_job:
  assumes "prepare env req w = Inr (j, pre @ r # post, w0)"
    and "clip_loop env j 1 pre [] w0 = Inr (clips1, w1)"
    and "run env (length (calls w1)) (copy_cmd j r (clip_path j (1 + int (length pre)) r)) = Inr res1"
    and "returncode res1 \<noteq> 0"
  shows "calls (outcome_world (cut_clip env j (1 + int (length pre)) r clips1 w1)) =
      calls w1 @ [copy_cmd j r (clip_path j (1 + int (length pre)) r),
                  reencode_cmd j r (clip_path j (1 + int (length pre)) r)]
    \<and> (\<forall>res2. run env (Suc (length (calls w1)))
                (reencode_cmd j r (clip_path j (1 + int (length pre)) r)) = Inr res2 \<and>
              returncode res2 \<noteq> 0 \<longrightarrow>
          fst (split_video env req w) = Json_error (''FFmpeg failed: '' @ stderr res2) 500 \<and>
          calls (snd (split_video env req w)) =
            calls w1 @ [copy_cmd j r (clip_path j (1 + int (length pre)) r),
                        reencode_cmd j r (clip_path j (1 + int (length pre)) r)])"
proof (intro conjI allI impI)
  show c: "calls (outcome_world (cut_clip env j (1 + int (length pre)) r clips1 w1)) =
      calls w1 @ [copy_cmd j r (clip_path j (1 + int (length pre)) r),
                  reencode_cmd j r (clip_path j (1 + int (length pre)) r)]"
    using assms(3,4) by (rule cut_clip_retry_calls)
  fix res2
  assume a: "run env (Suc (length (calls w1)))
                (reencode_cmd j r (clip_path j (1 + int (length pre)) r)) = Inr res2 \<and>
              returncode res2 \<noteq> 0"
  then obtain w2 where f: "cut_clip env j (1 + int (length pre)) r clips1 w1 =
      Inl (Exception (''FFmpeg failed: '' @ stderr res2), w2)"
    using cut_clip_both_fail[OF assms(3,4)] by blast
  from clip_loop_append_fail[OF assms(2) f]
  have l: "clip_loop env j 1 (pre @ r # post) [] w0 = Inl (Exception (''FFmpeg failed: '' @ stderr res2), w2)" .
  have sv: "split_video env req w =
      (Json_error (''FFmpeg failed: '' @ stderr res2) 500, rmtree (scratch_dir j) w2)"
    using assms(1) l by (simp add: split_video_def)
  show "fst (split_video env req w) = Json_error (''FFmpeg failed: '' @ stderr res2) 500"
    using sv by simp
  show "calls (snd (split_video env req w)) =
            calls w1 @ [copy_cmd j r (clip_path j (1 + int (length pre)) r),
                        reencode_cmd j r (clip_path j (1 + int (length pre)) r)]"
    using sv c f by simp
qed

subsection \<open>Clips registered for download\<close>

lemma store_clip_registered:
  assumes "\<not> save_to_path j" "\<forall>c\<in>set clips. registered (scratch_dir j) w c"
  shows "\<forall>c\<in>set (fst (store_clip env j i r clips w)).
           registered (scratch_dir j) (snd (store_clip env j i r clips w)) c"
proof -
  define cid where "cid = ''clip_'' @ str i @ ''_'' @ urandom_hex env (urandom_calls w)"
  define info where "info = \<lparr>path = clip_path j i r, filename = output_filename (first_word j) i r,
               temp_dir = scratch_dir j\<rparr>"
  define c1 where "c1 = \<lparr>clip_id = Some cid, clip_filename = output_filename (first_word j) i r\<rparr>"
  have s: "store_clip env j i r clips w =
      (clips @ [c1], w\<lparr>urandom_calls := Suc (urandom_calls w),
                       temp_clips := AList.update cid info (temp_clips w)\<rparr>)"
    using assms(1) by (simp add: store_clip_def Let_def cid_def info_def c1_def)
  have m: "map_of (AList.update cid info (temp_clips w)) k =
      (if k = cid then Some info else map_of (temp_clips w) k)" for k
    by (simp add: update_conv')
  have ti: "temp_dir info = scratch_dir j" by (simp add: info_def)
  have new: "registered (scratch_dir j) (w\<lparr>urandom_calls := Suc (urandom_calls w),
                       temp_clips := AList.update cid info (temp_clips w)\<rparr>) c1"
    unfolding registered_def using m[of cid] ti by (simp add: c1_def)
  have old: "registered (scratch_dir j) (w\<lparr>urandom_calls := Suc (urandom_calls w),
                       temp_clips := AList.update cid info (temp_clips w)\<rparr>) c"
    if "c \<in> set clips" for c
  proof -
    from assms(2) that obtain k v where kv: "clip_id c = Some k" "map_of (temp_clips w) k = Some v"
      "temp_dir v = scratch_dir j"
      unfolding registered_def by blast
    show ?thesis
    proof (cases "k = cid")
      case True
      then show ?thesis unfolding registered_def using kv(1) m[of cid] ti by simp
    next
      case False
      then show ?thesis unfolding registered_def using kv m[of k] by simp
    qed
  qed
  show ?thesis unfolding s fst_conv snd_conv using new old by auto
qed

lemma cut_clip_registered:
  assumes "\<not> save_to_path j" "\<forall>c\<in>set clips. registered (scratch_dir j) w c"
    and "cut_clip env j i r clips w = Inr (clips1, w1)"
  shows "\<forall>c\<in>set clips1. registered (scratch_dir j) w1 c"
proof -
  define wa where "wa = snd (subprocess_run env (copy_cmd j r (clip_path j i r)) w)"
  define wb where "wb = snd (subprocess_run env (reencode_cmd j r (clip_path j i r)) wa)"
  have t: "temp_clips wa = temp_clips w" "temp_clips wb = temp_clips w"
    by (simp_all add: wa_def wb_def)
  from assms(3) have "store_clip env j i r clips wa = (clips1, w1) \<or>
      store_clip env j i r clips wb = (clips1, w1)"
    unfolding cut_clip_unfold Let_def wa_def wb_def
    by (auto split: sum.splits if_splits)
  then obtain w0 where w0: "temp_clips w0 = temp_clips w"
    and s: "store_clip env j i r clips w0 = (clips1, w1)"
    using t by blast
  from assms(2) have "\<forall>c\<in>set clips. registered (scratch_dir j) w0 c"
    unfolding registered_def w0 .
  from store_clip_registered[OF assms(1) this, of env i r] s show ?thesis by simp
qed

lemma cut_clip_fail_temp_clips:
  "cut_clip env j i r clips w = Inl (e, w2) \<Longrightarrow> temp_clips w2 = temp_clips w"
  by (auto simp: cut_clip_unfold Let_def split: sum.splits if_splits)

lemma clip_loop_registered:
  assumes "\<not> save_to_path j"
  shows "\<forall>c\<in>set clips. registered (scratch_dir j) w c \<Longrightarrow>
    clip_loop env j i rs clips w = Inr (clips1, w1) \<Longrightarrow>
    (\<forall>c\<in>set clips1. registered (scratch_dir j) w1 c) \<and> length clips1 = length clips + length rs"
proof (induction rs arbitrary: i clips w)
  case Nil
  then show ?case by simp
next
  case (Cons r rs)
  from Cons.prems(2) obtain c0 w0 where s: "cut_clip env j i r clips w = Inr (c0, w0)"
    and l: "clip_loop env j (i + 1) rs c0 w0 = Inr (clips1, w1)"
    by (auto split: sum.splits)
  from cut_clip_registered[OF assms Cons.prems(1) s]
  have r0: "\<forall>c\<in>set c0. registered (scratch_dir j) w0 c" .
  have "length c0 = length clips + 1" using cut_clip_result[OF s] by simp
  with Cons.IH[OF r0 l] show ?case by simp
qed

text \<open>
  C10. A request without output directory, whose ranges before \<open>r\<close> have been cut and
  whose range \<open>r\<close> raises: the answer has status 500, and every clip recorded for the
  earlier ranges still has its id as a key of \<^verbatim>\<open>temp_clips\<close>, with a record whose
  \<^verbatim>\<open>temp_dir\<close> is the scratch directory of the job, while that directory and all
  files in it are gone.
\<close>

theorem failed_job_leaves_records:
  assumes "prepare env req w = Inr (j, pre @ r # post, w0)"
    and "strip (case outputPath req of None \<Rightarrow> [] | Some p \<Rightarrow> p) = []"
    and "clip_loop env j 1 pre [] w0 = Inr (clips1, w1)"
    and "cut_clip env j (1 + int (length pre)) r clips1 w1 = Inl (e, w2)"
  shows "fst (split_video env req w) = Json_error (message e) 500
    \<and> length clips1 = length pre
    \<and> (\<forall>c\<in>set clips1. \<exists>cid info. clip_id c = Some cid \<and>
          map_of (temp_clips (snd (split_video env req w))) cid = Some info \<and>
          temp_dir info = scratch_dir j)
    \<and> scratch_dir j \<notin> dirs (snd (split_video env req w))
    \<and> (\<forall>p. inside (scratch_dir j) p \<longrightarrow> files (snd (split_video env req w)) p = None)"
proof -
  have ns: "\<not> save_to_path j" using prepare_Inr_fields(4)[OF assms(1)] assms(2) by simp
  from clip_loop_append_fail[OF assms(3,4)]
  have l: "clip_loop env j 1 (pre @ r # post) [] w0 = Inl (e, w2)" .
  have sv: "split_video env req w = (Json_error (message e) 500, rmtree (scratch_dir j) w2)"
    using assms(1) l by (simp add: split_video_def)
  from clip_loop_registered[OF ns _ assms(3)]
  have reg: "\<forall>c\<in>set clips1. registered (scratch_dir j) w1 c" and len: "length clips1 = length pre"
    by simp_all
  have t: "temp_clips (rmtree (scratch_dir j) w2) = temp_clips w1"
    using cut_clip_fail_temp_clips[OF assms(4)] by simp
  from reg have reg': "\<forall>c\<in>set clips1. \<exists>cid info. clip_id c = Some cid \<and>
          map_of (temp_clips (rmtree (scratch_dir j) w2)) cid = Some info \<and>
          temp_dir info = scratch_dir j"
    unfolding registered_def t .
  have d: "scratch_dir j \<notin> dirs (rmtree (scratch_dir j) w2)" by (rule rmtree_removes(1))
  have f: "\<forall>p. inside (scratch_dir j) p \<longrightarrow> files (rmtree (scratch_dir j) w2) p = None"
    using rmtree_removes(2) by blast
  have r: "fst (split_video env req w) = Json_error (message e) 500"
    unfolding sv by simp
  show ?thesis
    unfolding sv fst_conv snd_conv
  proof (intro conjI)
    show "Json_error (message e) 500 = Json_error (message e) 500" ..
  qed (fact len reg' d f)+
qed

subsection \<open>Download and sweep\<close>

lemma keys_delete: "fst ` set (AList.delete k al) = fst ` set al - {k}"
  by (auto simp: AList.delete_eq)

lemma cleanup_loop_keys:
  "fst ` set (temp_clips (cleanup_loop items w)) = fst ` set (temp_clips w) - fst ` set items"
proof (induction items arbitrary: w)
  case Nil
  then show ?case by simp
next
  case (Cons x items)
  obtain cid info where x: "x = (cid, info)" by (cases x)
  define w1 where "w1 = (if path_exists w (temp_dir info) then rmtree (temp_dir info) w else w)"
  have t: "temp_clips w1 = temp_clips w" by (simp add: w1_def)
  have step: "cleanup_loop (x # items) w =
      (if cid \<in> fst ` set (temp_clips w1)
       then cleanup_loop items (w1\<lparr>temp_clips := AList.delete cid (temp_clips w1)\<rparr>)
       else cleanup_loop items w1)"
    unfolding x w1_def by (simp only: cleanup_loop.simps Let_def)
  show ?case
  proof (cases "cid \<in> fst ` set (temp_clips w1)")
    case True
    have "fst ` set (temp_clips (cleanup_loop (x # items) w)) =
        fst ` set (AList.delete cid (temp_clips w1)) - fst ` set items"
      using True by (simp only: step if_True Cons.IH) simp
    also have "\<dots> = fst ` set (temp_clips w) - fst ` set (x # items)"
      unfolding keys_delete t x by auto
    finally show ?thesis .
  next
    case False
    have "fst ` set (temp_clips (cleanup_loop (x # items) w)) =
        fst ` set (temp_clips w1) - fst ` set items"
      using False by (simp only: step if_False Cons.IH)
    also have "\<dots> = fst ` set (temp_clips w) - fst ` set (x # items)"
      using False unfolding t x by auto
    finally show ?thesis .
  qed
qed

lemma cleanup_temp_files_empty: "temp_clips (cleanup_temp_files w) = []"
proof -
  have "fst ` set (temp_clips (cleanup_temp_files w)) = {}"
    unfolding cleanup_temp_files_def cleanup_loop_keys by simp
  then show ?thesis by simp
qed

lemma download_clip_world: "snd (download_clip cid w) = w"
  by (simp add: download_clip_def split: option.splits)

lemma download_clip_found:
  "map_of (temp_clips w) cid = Some info \<Longrightarrow> files w (path info) = Some bytes \<Longrightarrow>
   fst (download_clip cid w) = Send_file bytes (filename info)"
  by (simp add: download_clip_def send_file_def)

lemma download_clip_missing:
  "map_of (temp_clips w) cid = None \<Longrightarrow> fst (download_clip cid w) = Json_error ''Clip not found'' 404"
  by (simp add: download_clip_def)

text \<open>
  C9. \<^verbatim>\<open>download_clip\<close> leaves the world as it is, so a second call answers as the
  first did: for an id of \<^verbatim>\<open>temp_clips\<close> whose file is there, both calls send the
  bytes of the file under the recorded name and the record stays; for an id that is
  not a key, and for every id once \<^verbatim>\<open>cleanup_temp_files\<close> has run, the answer is
  "Clip not found" with status 404.
\<close>

theorem download_is_read_only:
  "snd (download_clip cid w) = w
   \<and> download_clip cid (snd (download_clip cid w)) = download_clip cid w
   \<and> (map_of (temp_clips w) cid = Some info \<and> files w (path info) = Some bytes \<longrightarrow>
        fst (download_clip cid w) = Send_file bytes (filename info) \<and>
        fst (download_clip cid (snd (download_clip cid w))) = Send_file bytes (filename info) \<and>
        map_of (temp_clips (snd (download_clip cid (snd (download_clip cid w))))) cid = Some info)
   \<and> (map_of (temp_clips w) cid' = None \<longrightarrow>
        fst (download_clip cid' w) = Json_error ''Clip not found'' 404)
   \<and> fst (download_clip cid'' (cleanup_temp_files w')) = Json_error ''Clip not found'' 404"
proof -
  have "map_of (temp_clips (cleanup_temp_files w')) cid'' = None"
    by (simp only: cleanup_temp_files_empty map_of.simps)
  then have "fst (download_clip cid'' (cleanup_temp_files w')) = Json_error ''Clip not found'' 404"
    by (rule download_clip_missing)
  moreover have "map_of (temp_clips w) cid = Some info \<and> files w (path info) = Some bytes \<longrightarrow>
        fst (download_clip cid w) = Send_file bytes (filename info) \<and>
        fst (download_clip cid w) = Send_file bytes (filename info) \<and>
        map_of (temp_clips w) cid = Some info"
    using download_clip_found[of w cid info bytes] by simp
  moreover have "map_of (temp_clips w) cid' = None \<longrightarrow>
        fst (download_clip cid' w) = Json_error ''Clip not found'' 404"
    using download_clip_missing[of w cid'] by simp
  ultimately show ?thesis
    unfolding download_clip_world by simp
qed

subsection \<open>Concrete runs\<close>

lemma demo_strings:
  "allowed_file ''a.mp4''" "get_first_word ''a.mp4'' = ''a''" "strip ''/out'' = ''/out''"
  "strip [] = []"
  "parents ''/out'' = []" "join ''/tmp/job'' ''a.mp4'' = ''/tmp/job/a.mp4''"
  "parse_timestamp_ranges ''bad'' = Inl (ValueError ''Invalid range format: bad'')"
  "parse_timestamp_ranges ''0:01-0:02'' = Inr [range1]"
  "parse_timestamp_ranges ''0:01-0:02,0:03-0:05'' = Inr [range1, range2]"
  "output_filename ''a'' 1 range1 = ''a-1-[0_01 - 0_02].mp4''"
  by code_simp+

lemma bad_request_eval:
  "split_video demo_env bad_request demo_world =
     (Json_error ''Invalid range format: bad'' 400, demo_world\<lparr>dirs := dirs demo_world \<union> set [''/out'']\<rparr>)"
  by (simp add: split_video_def prepare_def validate_output_path_def makedirs_def path_exists_def Let_def
      bad_request_def demo_env_def demo_world_def demo_strings)

text \<open>
  C7, as stated, fails: the timestamps \<open>bad\<close> are rejected with status 400, and yet
  the directory \<open>/out\<close>, which was not there before the request, is there after it.
\<close>

theorem malformed_timestamps_create_directory:
  "parse_timestamp_ranges ''bad'' = Inl (ValueError ''Invalid range format: bad'')
   \<and> fst (split_video demo_env bad_request demo_world) = Json_error ''Invalid range format: bad'' 400
   \<and> ''/out'' \<notin> dirs demo_world
   \<and> ''/out'' \<in> dirs (snd (split_video demo_env bad_request demo_world))"
  by (simp add: bad_request_eval demo_strings) (simp add: demo_world_def)

theorem malformed_timestamps_rejected_early_witness:
  "(\<exists>m. fst (split_video demo_env bad_request demo_world) = Json_error m 400)
   \<and> calls (snd (split_video demo_env bad_request demo_world)) = []
   \<and> temp_clips (snd (split_video demo_env bad_request demo_world)) = []
   \<and> files (snd (split_video demo_env bad_request demo_world)) ''/tmp/job/a.mp4'' = None"
proof -
  have h: "parse_timestamp_ranges (case timestamps bad_request of None \<Rightarrow> [] | Some t \<Rightarrow> t) =
      Inl (ValueError ''Invalid range format: bad'')"
    by (simp add: bad_request_def demo_strings)
  from malformed_timestamps_rejected_early[OF h, of demo_env demo_world]
  show ?thesis by (simp add: demo_world_def)
qed

lemma demo_strings2:
  "str 1 = ''1''" "inside ''/tmp/job'' ''/tmp/job/a.mp4''"
  by code_simp+

lemma saved_request_eval:
  "fst (split_video demo_env saved_request demo_world) =
     Json_success [\<lparr>clip_id = None, clip_filename = ''a-1-[0_01 - 0_02].mp4''\<rparr>] (Some ''/out'')"
  by (simp add: split_video_def prepare_def validate_output_path_def makedirs_def path_exists_def
      Let_def cut_clip_def subprocess_run_def store_clip_def
      saved_request_def demo_env_def demo_world_def demo_strings)

theorem saved_job_leaves_no_records_witness:
  "fst (split_video demo_env saved_request demo_world) =
     Json_success [\<lparr>clip_id = None, clip_filename = ''a-1-[0_01 - 0_02].mp4''\<rparr>] (Some ''/out'')
   \<and> temp_clips (snd (split_video demo_env saved_request demo_world)) = []
   \<and> ''/tmp/job'' \<notin> dirs (snd (split_video demo_env saved_request demo_world))
   \<and> files (snd (split_video demo_env saved_request demo_world)) ''/tmp/job/a.mp4'' = None"
proof -
  have h1: "strip (case outputPath saved_request of None \<Rightarrow> [] | Some p \<Rightarrow> p) \<noteq> []"
    by (simp add: saved_request_def demo_strings)
  have h2: "split_video demo_env saved_request demo_world =
      (Json_success [\<lparr>clip_id = None, clip_filename = ''a-1-[0_01 - 0_02].mp4''\<rparr>] (Some ''/out''),
       snd (split_video demo_env saved_request demo_world))"
    using saved_request_eval by (metis prod.collapse)
  from saved_job_leaves_no_records[OF h1 h2] obtain j ranges w0 where
    p: "prepare demo_env saved_request demo_world = Inr (j, ranges, w0)"
    and t: "temp_clips (snd (split_video demo_env saved_request demo_world)) = temp_clips demo_world"
    and d: "scratch_dir j \<notin> dirs (snd (split_video demo_env saved_request demo_world))"
    and f: "\<forall>p. inside (scratch_dir j) p \<longrightarrow>
              files (snd (split_video demo_env saved_request demo_world)) p = None"
    by blast
  from prepare_Inr[OF p] have sd: "scratch_dir j = ''/tmp/job''" by (auto simp: demo_env_def)
  show ?thesis
    using saved_request_eval t d f demo_strings2(2) unfolding sd by (simp add: demo_world_def)
qed

lemma demo_run_first: "run demo_env 0 cmd = Inr \<lparr>returncode = 0, stderr = [], written = Some ''frames''\<rparr>"
  by (simp add: demo_env_def)

lemma demo_run_later:
  "n \<noteq> 0 \<Longrightarrow> run demo_env n cmd = Inr \<lparr>returncode = 1, stderr = ''boom'', written = None\<rparr>"
  by (simp add: demo_env_def)

lemma download_request_prepare:
  "\<exists>j w0. prepare demo_env download_request demo_world = Inr (j, [range1, range2], w0) \<and>
     calls w0 = [] \<and> urandom_calls w0 = 0 \<and> scratch_dir j = ''/tmp/job'' \<and> \<not> save_to_path j"
  by (simp add: prepare_def validate_output_path_def Let_def
      download_request_def demo_env_def demo_world_def demo_strings)

lemma failing_request_prepare:
  "\<exists>j w0. prepare demo_env failing_request demo_world = Inr (j, [range1, range2], w0) \<and>
     calls w0 = [] \<and> save_to_path j"
  by (simp add: prepare_def validate_output_path_def Let_def makedirs_def path_exists_def
      failing_request_def demo_env_def demo_world_def demo_strings)

lemma demo_first_range:
  assumes "calls w0 = []"
  shows "\<exists>clips1 w1. clip_loop demo_env j 1 [range1] [] w0 = Inr (clips1, w1) \<and>
     length (calls w1) = 1 \<and>
     clips1 = [\<lparr>clip_id = (if save_to_path j then None
                            else Some (''clip_1_'' @ urandom_hex demo_env (urandom_calls w0))),
                clip_filename = output_filename (first_word j) 1 range1\<rparr>]"
proof -
  define wa where "wa = snd (subprocess_run demo_env (copy_cmd j range1 (clip_path j 1 range1)) w0)"
  have c: "cut_clip demo_env j 1 range1 [] w0 = Inr (store_clip demo_env j 1 range1 [] wa)"
    using assms by (simp add: cut_clip_unfold Let_def demo_run_first wa_def)
  have "clip_loop demo_env j 1 [range1] [] w0 =
      Inr (fst (store_clip demo_env j 1 range1 [] wa), snd (store_clip demo_env j 1 range1 [] wa))"
    by (simp add: c split: prod.splits)
  moreover have "length (calls (snd (store_clip demo_env j 1 range1 [] wa))) = 1"
    using assms by (simp add: wa_def)
  moreover have "fst (store_clip demo_env j 1 range1 [] wa) =
      [\<lparr>clip_id = (if save_to_path j then None
                            else Some (''clip_1_'' @ urandom_hex demo_env (urandom_calls w0))),
                clip_filename = output_filename (first_word j) 1 range1\<rparr>]"
    by (simp add: store_clip_fst wa_def demo_strings2(1))
  ultimately show ?thesis by blast
qed

theorem cutter_failure_aborts_job_witness:
  "fst (split_video demo_env failing_request demo_world) = Json_error ''FFmpeg failed: boom'' 500
   \<and> length (calls (snd (split_video demo_env failing_request demo_world))) = 3"
proof -
  from failing_request_prepare obtain j w0 where
    p: "prepare demo_env failing_request demo_world = Inr (j, [range1] @ range2 # [], w0)"
    and c0: "calls w0 = []" by auto
  from demo_first_range[OF c0, of j] obtain clips1 w1 where
    l: "clip_loop demo_env j 1 [range1] [] w0 = Inr (clips1, w1)" and c1: "length (calls w1) = 1"
    by blast
  have r1: "run demo_env (length (calls w1))
      (copy_cmd j range2 (clip_path j (1 + int (length [range1])) range2)) =
      Inr \<lparr>returncode = 1, stderr = ''boom'', written = None\<rparr>"
    using c1 by (simp add: demo_run_later)
  have n1: "returncode \<lparr>returncode = 1, stderr = ''boom'', written = None\<rparr> \<noteq> 0" by simp
  have r2: "run demo_env (Suc (length (calls w1)))
      (reencode_cmd j range2 (clip_path j (1 + int (length [range1])) range2)) =
      Inr \<lparr>returncode = 1, stderr = ''boom'', written = None\<rparr>"
    by (simp add: demo_run_later)
  note th = cutter_failure_aborts_job[OF p l r1 n1]
  from th r2 n1 have
    "fst (split_video demo_env failing_request demo_world) =
       Json_error (''FFmpeg failed: '' @ stderr \<lparr>returncode = 1, stderr = ''boom'', written = None\<rparr>) 500"
    "calls (snd (split_video demo_env failing_request demo_world)) =
       calls w1 @ [copy_cmd j range2 (clip_path j (1 + int (length [range1])) range2),
                   reencode_cmd j range2 (clip_path j (1 + int (length [range1])) range2)]"
    by blast+
  then show ?thesis using c1 by simp
qed

theorem failed_job_leaves_records_witness:
  "fst (split_video demo_env download_request demo_world) = Json_error ''FFmpeg failed: boom'' 500
   \<and> (\<exists>info. map_of (temp_clips (snd (split_video demo_env download_request demo_world)))
               ''clip_1_00112233aabbccdd'' = Some info \<and> temp_dir info = ''/tmp/job'')
   \<and> ''/tmp/job'' \<notin> dirs (snd (split_video demo_env download_request demo_world))"
proof -
  from download_request_prepare obtain j w0 where
    p: "prepare demo_env download_request demo_world = Inr (j, [range1] @ range2 # [], w0)"
    and c0: "calls w0 = []" and u0: "urandom_calls w0 = 0"
    and sd: "scratch_dir j = ''/tmp/job''" and ns: "\<not> save_to_path j" by auto
  from demo_first_range[OF c0, of j] ns u0 obtain clips1 w1 where
    l: "clip_loop demo_env j 1 [range1] [] w0 = Inr (clips1, w1)" and c1: "length (calls w1) = 1"
    and cl: "clips1 = [\<lparr>clip_id = Some ''clip_1_00112233aabbccdd'',
                        clip_filename = output_filename (first_word j) 1 range1\<rparr>]"
    by (auto simp: demo_env_def)
  have r1: "run demo_env (length (calls w1))
      (copy_cmd j range2 (clip_path j (1 + int (length [range1])) range2)) =
      Inr \<lparr>returncode = 1, stderr = ''boom'', written = None\<rparr>"
    using c1 by (simp add: demo_run_later)
  have n1: "returncode \<lparr>returncode = 1, stderr = ''boom'', written = None\<rparr> \<noteq> 0" by simp
  have r2: "run demo_env (Suc (length (calls w1)))
      (reencode_cmd j range2 (clip_path j (1 + int (length [range1])) range2)) =
      Inr \<lparr>returncode = 1, stderr = ''boom'', written = None\<rparr>"
    by (simp add: demo_run_later)
  have "\<exists>w2. cut_clip demo_env j (1 + int (length [range1])) range2 clips1 w1 =
      Inl (Exception (''FFmpeg failed: '' @ stderr \<lparr>returncode = 1, stderr = ''boom'', written = None\<rparr>), w2)"
    by (rule cut_clip_both_fail[OF r1 n1 r2 n1])
  then obtain w2 where f: "cut_clip demo_env j (1 + int (length [range1])) range2 clips1 w1 =
      Inl (Exception ''FFmpeg failed: boom'', w2)" by auto
  have o: "strip (case outputPath download_request of None \<Rightarrow> [] | Some p \<Rightarrow> p) = []"
    by (simp add: download_request_def demo_strings)
  from failed_job_leaves_records[OF p o l f] show ?thesis
    unfolding cl sd by simp
qed

theorem download_is_read_only_witness:
  "fst (download_clip ''clip_1_00112233aabbccdd'' demo_store) =
     Send_file ''frames'' ''a-1-[0_01 - 0_02].mp4''
   \<and> fst (download_clip ''clip_1_00112233aabbccdd''
            (snd (download_clip ''clip_1_00112233aabbccdd'' demo_store))) =
     Send_file ''frames'' ''a-1-[0_01 - 0_02].mp4''
   \<and> fst (download_clip ''clip_2_00112233aabbccdd'' demo_store) = Json_error ''Clip not found'' 404"
  using download_is_read_only [of "''clip_1_00112233aabbccdd''" demo_store
      "\<lparr>path = ''/tmp/job/a-1-[0_01 - 0_02].mp4'', filename = ''a-1-[0_01 - 0_02].mp4'',
        temp_dir = ''/tmp/job''\<rparr>" "''frames''" "''clip_2_00112233aabbccdd''"]
  by (simp add: demo_store_def)

end
